theory Spec2Isabelle
  imports Complex_Main
begin

section \<open>Name generation harness: data model\<close>

text \<open>
  The two programs \<^verbatim>\<open>02-generate-names/main.go\<close> and \<^verbatim>\<open>03-generate-names/main.go\<close>
  differ only in the message list they send. Go strings are byte sequences, so they
  are modelled as \<^typ>\<open>string\<close> (a list of 8-bit characters).
\<close>

record Character =
  Name :: string
  Kind :: string

section \<open>Table Writer\<close>

text \<open>
  \<^verbatim>\<open>%d\<close> of \<^verbatim>\<open>fmt.Sprintf\<close>: the decimal digits of an integer, with a leading minus
  sign for a negative one.
\<close>

definition digit_char :: "nat \<Rightarrow> char" where
  "digit_char d = char_of (48 + d)"

fun nat_digits :: "nat \<Rightarrow> string" where
  "nat_digits n = (if n < 10 then [digit_char n] else nat_digits (n div 10) @ [digit_char (n mod 10)])"

declare nat_digits.simps [simp del]

definition fmt_d :: "int \<Rightarrow> string" where
  "fmt_d i = (if i < 0 then CHR ''-'' # nat_digits (nat (- i)) else nat_digits (nat i))"

text \<open>
  \<^verbatim>\<open>fmt.Sprintf("| %d   | %s      | %s       |\n", idx+1, character.Name, character.Kind)\<close>:
  \<^verbatim>\<open>%s\<close> copies the bytes of its argument.
\<close>

definition table_row :: "int \<Rightarrow> Character \<Rightarrow> string" where
  "table_row idx character =
     ''| '' @ fmt_d (idx + 1) @ ''   | '' @ Name character @ ''      | '' @ Kind character @ ''       |\<newline>''"

definition table_header :: string where
  "table_header = ''| Index | Name     | Kind       |\<newline>''"

definition table_separator :: string where
  "table_separator = ''|------|----------|------------|\<newline>''"

text \<open>The loop \<^verbatim>\<open>for idx, character := range characters\<close>, appending one row per record.\<close>

fun add_rows :: "string \<Rightarrow> int \<Rightarrow> Character list \<Rightarrow> string" where
  "add_rows tbl idx [] = tbl"
| "add_rows tbl idx (character # rest) = add_rows (tbl @ table_row idx character) (idx + 1) rest"

definition markdownTable :: "Character list \<Rightarrow> string" where
  "markdownTable characters = add_rows (table_header @ table_separator) 0 characters"

text \<open>
  The lines of a text, as the specification counts them: every newline byte ends a
  line, and bytes after the last newline form one more line.
\<close>

fun lines_from :: "string \<Rightarrow> string \<Rightarrow> string list" where
  "lines_from cur [] = (if cur = [] then [] else [cur])"
| "lines_from cur (c # cs) =
     (if c = CHR 0x0A then cur # lines_from [] cs else lines_from (cur @ [c]) cs)"

definition text_lines :: "string \<Rightarrow> string list" where
  "text_lines s = lines_from [] s"

section \<open>JSON values\<close>

text \<open>
  The values a JSON text denotes. A number keeps its literal text; an object keeps its
  members in the order of the text, duplicates included.
\<close>

datatype json =
    JNull
  | JBool bool
  | JNumber string
  | JString string
  | JArray "json list"
  | JObject "(string \<times> json) list"

section \<open>UTF-8 and UTF-16 helpers of the Go runtime\<close>

definition byte :: "char \<Rightarrow> nat" where
  "byte c = of_char c"

definition is_cont :: "char \<Rightarrow> bool" where
  "is_cont c = (0x80 \<le> byte c \<and> byte c \<le> 0xBF)"

text \<open>
  \<^verbatim>\<open>utf8.DecodeRune\<close>, as far as its callers here need it: the width of the well-formed
  UTF-8 sequence at the head of the bytes, or \<open>0\<close> when the head is not one (Go then
  returns \<^verbatim>\<open>RuneError\<close> with width 1). The first byte selects the width and the range
  of the second byte.
\<close>

fun utf8_width :: "string \<Rightarrow> nat" where
  "utf8_width [] = 0"
| "utf8_width (c # s) =
     (let b = byte c in
      if b < 0x80 then 1
      else if 0xC2 \<le> b \<and> b \<le> 0xDF then
        (case s of c1 # _ \<Rightarrow> if is_cont c1 then 2 else 0 | _ \<Rightarrow> 0)
      else if 0xE0 \<le> b \<and> b \<le> 0xEF then
        (case s of c1 # c2 # _ \<Rightarrow>
           if (if b = 0xE0 then 0xA0 else 0x80) \<le> byte c1
              \<and> byte c1 \<le> (if b = 0xED then 0x9F else 0xBF) \<and> is_cont c2
           then 3 else 0
         | _ \<Rightarrow> 0)
      else if 0xF0 \<le> b \<and> b \<le> 0xF4 then
        (case s of c1 # c2 # c3 # _ \<Rightarrow>
           if (if b = 0xF0 then 0x90 else 0x80) \<le> byte c1
              \<and> byte c1 \<le> (if b = 0xF4 then 0x8F else 0xBF) \<and> is_cont c2 \<and> is_cont c3
           then 4 else 0
         | _ \<Rightarrow> 0)
      else 0)"

text \<open>\<^verbatim>\<open>utf8.EncodeRune\<close>: surrogates and values above U+10FFFF become U+FFFD.\<close>

definition EncodeRune :: "nat \<Rightarrow> string" where
  "EncodeRune r =
     (if r \<le> 0x7F then [char_of r]
      else if r \<le> 0x7FF then [char_of (0xC0 + r div 64), char_of (0x80 + r mod 64)]
      else if r > 0x10FFFF \<or> (0xD800 \<le> r \<and> r \<le> 0xDFFF) then [CHR 0xEF, CHR 0xBF, CHR 0xBD]
      else if r \<le> 0xFFFF then
        [char_of (0xE0 + r div 4096), char_of (0x80 + (r div 64) mod 64), char_of (0x80 + r mod 64)]
      else
        [char_of (0xF0 + r div 262144), char_of (0x80 + (r div 4096) mod 64),
         char_of (0x80 + (r div 64) mod 64), char_of (0x80 + r mod 64)])"

definition ReplacementChar :: nat where
  "ReplacementChar = 0xFFFD"

text \<open>\<^verbatim>\<open>utf16.IsSurrogate\<close> and \<^verbatim>\<open>utf16.DecodeRune\<close>; a missing second half is \<open>None\<close>.\<close>

definition IsSurrogate :: "nat \<Rightarrow> bool" where
  "IsSurrogate r = (0xD800 \<le> r \<and> r < 0xE000)"

definition utf16_DecodeRune :: "nat \<Rightarrow> nat option \<Rightarrow> nat" where
  "utf16_DecodeRune r1 r2 =
     (case r2 of
        None \<Rightarrow> ReplacementChar
      | Some r2' \<Rightarrow>
          if 0xD800 \<le> r1 \<and> r1 < 0xDC00 \<and> 0xDC00 \<le> r2' \<and> r2' < 0xE000
          then (r1 - 0xD800) * 1024 + (r2' - 0xDC00) + 0x10000
          else ReplacementChar)"

section \<open>Unquoting a JSON string literal\<close>

definition hex_val :: "char \<Rightarrow> nat option" where
  "hex_val c =
     (let b = byte c in
      if 0x30 \<le> b \<and> b \<le> 0x39 then Some (b - 0x30)
      else if 0x61 \<le> b \<and> b \<le> 0x66 then Some (b - 0x61 + 10)
      else if 0x41 \<le> b \<and> b \<le> 0x46 then Some (b - 0x41 + 10)
      else None)"

text \<open>\<^verbatim>\<open>getu4\<close>: the code unit of a leading \<^verbatim>\<open>\uXXXX\<close>, or \<open>None\<close> (Go's \<open>-1\<close>).\<close>

fun getu4 :: "string \<Rightarrow> nat option" where
  "getu4 (b # u # h1 # h2 # h3 # h4 # _) =
     (if b \<noteq> CHR 0x5C \<or> u \<noteq> CHR ''u'' then None
      else case (hex_val h1, hex_val h2, hex_val h3, hex_val h4) of
             (Some a, Some b, Some c, Some d) \<Rightarrow> Some (((a * 16 + b) * 16 + c) * 16 + d)
           | _ \<Rightarrow> None)"
| "getu4 _ = None"

text \<open>
  The loop of \<^verbatim>\<open>unquoteBytes\<close> over the bytes between the quotes. Escapes are
  replaced, a surrogate pair of \<^verbatim>\<open>\u\<close> escapes becomes one code point, a lone
  surrogate becomes U+FFFD, and raw bytes are coerced to well-formed UTF-8: a well-formed
  sequence is decoded and encoded again, which leaves it as it is, and any other byte is
  replaced by U+FFFD.
\<close>

fun unquote_loop :: "string \<Rightarrow> string option" where
  "unquote_loop [] = Some []"
| "unquote_loop (c # s) =
     (if c = CHR 0x5C then
        (case s of
           [] \<Rightarrow> None
         | e # s' \<Rightarrow>
             if e = CHR 0x22 \<or> e = CHR 0x5C \<or> e = CHR ''/'' \<or> e = CHR 0x27
               then map_option ((#) e) (unquote_loop s')
             else if e = CHR ''b'' then map_option ((#) (CHR 0x08)) (unquote_loop s')
             else if e = CHR ''f'' then map_option ((#) (CHR 0x0C)) (unquote_loop s')
             else if e = CHR ''n'' then map_option ((#) (CHR 0x0A)) (unquote_loop s')
             else if e = CHR ''r'' then map_option ((#) (CHR 0x0D)) (unquote_loop s')
             else if e = CHR ''t'' then map_option ((#) (CHR 0x09)) (unquote_loop s')
             else if e = CHR ''u'' then
               (case getu4 (c # s) of
                  None \<Rightarrow> None
                | Some rr \<Rightarrow>
                    if IsSurrogate rr then
                      (let dec = utf16_DecodeRune rr (getu4 (drop 5 s)) in
                       if dec \<noteq> ReplacementChar
                       then map_option ((@) (EncodeRune dec)) (unquote_loop (drop 11 s))
                       else map_option ((@) (EncodeRune ReplacementChar)) (unquote_loop (drop 5 s)))
                    else map_option ((@) (EncodeRune rr)) (unquote_loop (drop 5 s)))
             else None)
      else if c = CHR 0x22 \<or> byte c < 0x20 then None
      else if byte c < 0x80 then map_option ((#) c) (unquote_loop s)
      else
        (let w = utf8_width (c # s) in
         if w = 0 then map_option ((@) (EncodeRune ReplacementChar)) (unquote_loop s)
         else map_option ((@) (take w (c # s))) (unquote_loop (drop (w - 1) s))))"

text \<open>\<^verbatim>\<open>unquoteBytes\<close>: the literal must start and end with a quote.\<close>

definition unquoteBytes :: "string \<Rightarrow> string option" where
  "unquoteBytes s =
     (if length s < 2 \<or> hd s \<noteq> CHR 0x22 \<or> last s \<noteq> CHR 0x22 then None
      else unquote_loop (butlast (tl s)))"

section \<open>The scanner of encoding/json\<close>

text \<open>
  \<^verbatim>\<open>json.Unmarshal\<close> first runs the scanner over the whole input (\<^verbatim>\<open>checkValid\<close>) and
  then decodes with the same scanner. The scanner is a state machine fed one byte at a
  time: \<open>step\<close> names the state function that takes the next byte, and \<open>parseState\<close>
  is the stack of enclosing arrays and objects (the head of the list is the innermost
  one). The model builds the value in the same pass: each stack entry carries what has
  been read of its array or object, \<open>item\<close> holds the bytes of the literal being read,
  and \<open>top\<close> receives the finished top-level value.
\<close>

datatype step_state =
    BeginValueOrEmpty | BeginValue | BeginStringOrEmpty | BeginString
  | EndValue | EndTop
  | InString | InStringEsc | InStringEscU | InStringEscU1 | InStringEscU12 | InStringEscU123
  | Neg | State1 | State0 | Dot | Dot0 | StateE | ESign | E0
  | StateT | Tr | Tru | StateF | Fa | Fal | Fals | StateN | Nu | Nul
  | StateError

datatype frame =
    ParseObjectKey "(string \<times> json) list" string
  | ParseObjectValue "(string \<times> json) list" string
  | ParseArrayValue "json list"

record scanner =
  step :: step_state
  parseState :: "frame list"
  item :: string
  top :: "json option"

definition maxNestingDepth :: nat where
  "maxNestingDepth = 10000"

definition isSpace :: "char \<Rightarrow> bool" where
  "isSpace c = (c = CHR '' '' \<or> c = CHR 0x09 \<or> c = CHR 0x0D \<or> c = CHR 0x0A)"

definition is_digit :: "char \<Rightarrow> bool" where
  "is_digit c = (0x30 \<le> byte c \<and> byte c \<le> 0x39)"

definition is_hex :: "char \<Rightarrow> bool" where
  "is_hex c = (is_digit c \<or> (0x61 \<le> byte c \<and> byte c \<le> 0x66) \<or> (0x41 \<le> byte c \<and> byte c \<le> 0x46))"

definition scan_error :: "scanner \<Rightarrow> scanner" where
  "scan_error s = s\<lparr>step := StateError\<rparr>"

text \<open>A finished value goes to the innermost open array or object, or to the top.\<close>

definition store_value :: "json \<Rightarrow> scanner \<Rightarrow> scanner" where
  "store_value v s =
     (case parseState s of
        [] \<Rightarrow> s\<lparr>top := Some v\<rparr>
      | ParseObjectKey ms k # rest \<Rightarrow>
          (case v of
             JString k' \<Rightarrow> s\<lparr>parseState := ParseObjectKey ms k' # rest\<rparr>
           | _ \<Rightarrow> scan_error s)
      | ParseObjectValue ms k # rest \<Rightarrow> s\<lparr>parseState := ParseObjectValue (ms @ [(k, v)]) k # rest\<rparr>
      | ParseArrayValue vs # rest \<Rightarrow> s\<lparr>parseState := ParseArrayValue (vs @ [v]) # rest\<rparr>)"

text \<open>
  The value of a finished literal, chosen by its first byte as in \<^verbatim>\<open>literalStore\<close>.
\<close>

definition literal_value :: "string \<Rightarrow> json option" where
  "literal_value lit =
     (case lit of
        [] \<Rightarrow> None
      | c # _ \<Rightarrow>
          if c = CHR ''n'' then Some JNull
          else if c = CHR ''t'' then Some (JBool True)
          else if c = CHR ''f'' then Some (JBool False)
          else if c = CHR 0x22 then map_option JString (unquoteBytes lit)
          else Some (JNumber lit))"

definition finish_literal :: "scanner \<Rightarrow> scanner" where
  "finish_literal s =
     (case literal_value (item s) of
        None \<Rightarrow> scan_error s
      | Some v \<Rightarrow> store_value v (s\<lparr>item := []\<rparr>))"

text \<open>\<^verbatim>\<open>pushParseState\<close> and \<^verbatim>\<open>popParseState\<close>.\<close>

definition pushParseState :: "frame \<Rightarrow> step_state \<Rightarrow> scanner \<Rightarrow> scanner" where
  "pushParseState f successState s =
     (if length (f # parseState s) \<le> maxNestingDepth
      then s\<lparr>parseState := f # parseState s, step := successState\<rparr>
      else scan_error (s\<lparr>parseState := f # parseState s\<rparr>))"

definition popParseState :: "json \<Rightarrow> scanner \<Rightarrow> scanner" where
  "popParseState v s =
     (let rest = tl (parseState s) in
      store_value v (s\<lparr>parseState := rest, step := (if rest = [] then EndTop else EndValue)\<rparr>))"

definition stateEndTop :: "scanner \<Rightarrow> char \<Rightarrow> scanner" where
  "stateEndTop s c = (if \<not> isSpace c then scan_error s else s)"

definition stateEndValue :: "scanner \<Rightarrow> char \<Rightarrow> scanner" where
  "stateEndValue s c =
     (case parseState s of
        [] \<Rightarrow> stateEndTop (s\<lparr>step := EndTop\<rparr>) c
      | ps # rest \<Rightarrow>
          if isSpace c then s\<lparr>step := EndValue\<rparr>
          else
            (case ps of
               ParseObjectKey ms k \<Rightarrow>
                 if c = CHR '':'' then s\<lparr>parseState := ParseObjectValue ms k # rest, step := BeginValue\<rparr>
                 else scan_error s
             | ParseObjectValue ms k \<Rightarrow>
                 if c = CHR '','' then s\<lparr>parseState := ParseObjectKey ms [] # rest, step := BeginString\<rparr>
                 else if c = CHR ''}'' then popParseState (JObject ms) s
                 else scan_error s
             | ParseArrayValue vs \<Rightarrow>
                 if c = CHR '','' then s\<lparr>step := BeginValue\<rparr>
                 else if c = CHR '']'' then popParseState (JArray vs) s
                 else scan_error s))"

definition begin_literal :: "step_state \<Rightarrow> scanner \<Rightarrow> char \<Rightarrow> scanner" where
  "begin_literal st s c = s\<lparr>step := st, item := [c]\<rparr>"

definition continue_literal :: "step_state \<Rightarrow> scanner \<Rightarrow> char \<Rightarrow> scanner" where
  "continue_literal st s c = s\<lparr>step := st, item := item s @ [c]\<rparr>"

definition stateBeginValue :: "scanner \<Rightarrow> char \<Rightarrow> scanner" where
  "stateBeginValue s c =
     (if isSpace c then s
      else if c = CHR ''{'' then pushParseState (ParseObjectKey [] []) BeginStringOrEmpty s
      else if c = CHR ''['' then pushParseState (ParseArrayValue []) BeginValueOrEmpty s
      else if c = CHR 0x22 then begin_literal InString s c
      else if c = CHR ''-'' then begin_literal Neg s c
      else if c = CHR ''0'' then begin_literal State0 s c
      else if c = CHR ''t'' then begin_literal StateT s c
      else if c = CHR ''f'' then begin_literal StateF s c
      else if c = CHR ''n'' then begin_literal StateN s c
      else if is_digit c then begin_literal State1 s c
      else scan_error s)"

definition stateBeginValueOrEmpty :: "scanner \<Rightarrow> char \<Rightarrow> scanner" where
  "stateBeginValueOrEmpty s c =
     (if isSpace c then s
      else if c = CHR '']'' then stateEndValue s c
      else stateBeginValue s c)"

definition stateBeginString :: "scanner \<Rightarrow> char \<Rightarrow> scanner" where
  "stateBeginString s c =
     (if isSpace c then s
      else if c = CHR 0x22 then begin_literal InString s c
      else scan_error s)"

definition stateBeginStringOrEmpty :: "scanner \<Rightarrow> char \<Rightarrow> scanner" where
  "stateBeginStringOrEmpty s c =
     (if isSpace c then s
      else if c = CHR ''}'' then
        (case parseState s of
           ParseObjectKey ms k # rest \<Rightarrow> stateEndValue (s\<lparr>parseState := ParseObjectValue ms k # rest\<rparr>) c
         | _ \<Rightarrow> scan_error s)
      else stateBeginString s c)"

definition stateInString :: "scanner \<Rightarrow> char \<Rightarrow> scanner" where
  "stateInString s c =
     (if c = CHR 0x22 then finish_literal (continue_literal EndValue s c)
      else if c = CHR 0x5C then continue_literal InStringEsc s c
      else if byte c < 0x20 then scan_error s
      else continue_literal InString s c)"

definition stateInStringEsc :: "scanner \<Rightarrow> char \<Rightarrow> scanner" where
  "stateInStringEsc s c =
     (if c = CHR ''b'' \<or> c = CHR ''f'' \<or> c = CHR ''n'' \<or> c = CHR ''r'' \<or> c = CHR ''t''
         \<or> c = CHR 0x5C \<or> c = CHR ''/'' \<or> c = CHR 0x22
      then continue_literal InString s c
      else if c = CHR ''u'' then continue_literal InStringEscU s c
      else scan_error s)"

definition state_hex :: "step_state \<Rightarrow> scanner \<Rightarrow> char \<Rightarrow> scanner" where
  "state_hex next_state s c = (if is_hex c then continue_literal next_state s c else scan_error s)"

text \<open>The end of a number is seen at the first byte after it.\<close>

definition end_number :: "scanner \<Rightarrow> char \<Rightarrow> scanner" where
  "end_number s c =
     (let s' = finish_literal s in
      if step s' = StateError then s' else stateEndValue s' c)"

definition state0 :: "scanner \<Rightarrow> char \<Rightarrow> scanner" where
  "state0 s c =
     (if c = CHR ''.'' then continue_literal Dot s c
      else if c = CHR ''e'' \<or> c = CHR ''E'' then continue_literal StateE s c
      else end_number s c)"

definition state1 :: "scanner \<Rightarrow> char \<Rightarrow> scanner" where
  "state1 s c = (if is_digit c then continue_literal State1 s c else state0 s c)"

definition stateNeg :: "scanner \<Rightarrow> char \<Rightarrow> scanner" where
  "stateNeg s c =
     (if c = CHR ''0'' then continue_literal State0 s c
      else if is_digit c then continue_literal State1 s c
      else scan_error s)"

definition stateDot :: "scanner \<Rightarrow> char \<Rightarrow> scanner" where
  "stateDot s c = (if is_digit c then continue_literal Dot0 s c else scan_error s)"

definition stateDot0 :: "scanner \<Rightarrow> char \<Rightarrow> scanner" where
  "stateDot0 s c =
     (if is_digit c then continue_literal Dot0 s c
      else if c = CHR ''e'' \<or> c = CHR ''E'' then continue_literal StateE s c
      else end_number s c)"

definition stateESign :: "scanner \<Rightarrow> char \<Rightarrow> scanner" where
  "stateESign s c = (if is_digit c then continue_literal E0 s c else scan_error s)"

definition stateE :: "scanner \<Rightarrow> char \<Rightarrow> scanner" where
  "stateE s c =
     (if c = CHR ''+'' \<or> c = CHR ''-'' then continue_literal ESign s c else stateESign s c)"

definition stateE0 :: "scanner \<Rightarrow> char \<Rightarrow> scanner" where
  "stateE0 s c = (if is_digit c then continue_literal E0 s c else end_number s c)"

definition state_letter :: "char \<Rightarrow> step_state \<Rightarrow> scanner \<Rightarrow> char \<Rightarrow> scanner" where
  "state_letter expected next_state s c =
     (if c = expected then
        (if next_state = EndValue then finish_literal (continue_literal EndValue s c)
         else continue_literal next_state s c)
      else scan_error s)"

text \<open>The state function named by \<open>step\<close>, applied to the next byte.\<close>

definition scan_byte :: "scanner \<Rightarrow> char \<Rightarrow> scanner" where
  "scan_byte s c =
     (case step s of
        BeginValueOrEmpty \<Rightarrow> stateBeginValueOrEmpty s c
      | BeginValue \<Rightarrow> stateBeginValue s c
      | BeginStringOrEmpty \<Rightarrow> stateBeginStringOrEmpty s c
      | BeginString \<Rightarrow> stateBeginString s c
      | EndValue \<Rightarrow> stateEndValue s c
      | EndTop \<Rightarrow> stateEndTop s c
      | InString \<Rightarrow> stateInString s c
      | InStringEsc \<Rightarrow> stateInStringEsc s c
      | InStringEscU \<Rightarrow> state_hex InStringEscU1 s c
      | InStringEscU1 \<Rightarrow> state_hex InStringEscU12 s c
      | InStringEscU12 \<Rightarrow> state_hex InStringEscU123 s c
      | InStringEscU123 \<Rightarrow> state_hex InString s c
      | Neg \<Rightarrow> stateNeg s c
      | State1 \<Rightarrow> state1 s c
      | State0 \<Rightarrow> state0 s c
      | Dot \<Rightarrow> stateDot s c
      | Dot0 \<Rightarrow> stateDot0 s c
      | StateE \<Rightarrow> stateE s c
      | ESign \<Rightarrow> stateESign s c
      | E0 \<Rightarrow> stateE0 s c
      | StateT \<Rightarrow> state_letter (CHR ''r'') Tr s c
      | Tr \<Rightarrow> state_letter (CHR ''u'') Tru s c
      | Tru \<Rightarrow> state_letter (CHR ''e'') EndValue s c
      | StateF \<Rightarrow> state_letter (CHR ''a'') Fa s c
      | Fa \<Rightarrow> state_letter (CHR ''l'') Fal s c
      | Fal \<Rightarrow> state_letter (CHR ''s'') Fals s c
      | Fals \<Rightarrow> state_letter (CHR ''e'') EndValue s c
      | StateN \<Rightarrow> state_letter (CHR ''u'') Nu s c
      | Nu \<Rightarrow> state_letter (CHR ''l'') Nul s c
      | Nul \<Rightarrow> state_letter (CHR ''l'') EndValue s c
      | StateError \<Rightarrow> s)"

definition scanner_reset :: scanner where
  "scanner_reset = \<lparr>step = BeginValue, parseState = [], item = [], top = None\<rparr>"

fun scan_bytes :: "scanner \<Rightarrow> string \<Rightarrow> scanner" where
  "scan_bytes s [] = s"
| "scan_bytes s (c # cs) = scan_bytes (scan_byte s c) cs"

text \<open>
  \<^verbatim>\<open>eof\<close>: at the end of the input the scanner is fed one space, which ends a
  top-level number; the input is a JSON text when the top-level value is then complete.
\<close>

definition scan_eof :: "scanner \<Rightarrow> json option" where
  "scan_eof s =
     (if step s = StateError then None
      else if step s = EndTop then top s
      else (let s' = scan_byte s (CHR '' '') in if step s' = EndTop then top s' else None))"

definition parse_json :: "string \<Rightarrow> json option" where
  "parse_json data = scan_eof (scan_bytes scanner_reset data)"

section \<open>Decoding into a Character\<close>

text \<open>
  The errors \<^verbatim>\<open>json.Unmarshal\<close> returns: a syntax error of the scanner, or the first
  type mismatch met while decoding, with the kind of JSON value found and the struct
  field it was meant for (empty at the top level). The message texts are not modelled.
\<close>

datatype json_error =
    SyntaxError
  | UnmarshalTypeError string string

datatype field = FieldName | FieldKind

text \<open>
  \<^verbatim>\<open>foldName\<close>: ASCII letters are folded to upper case, and a rune beyond ASCII is
  replaced by the smallest rune of its case-folding orbit. Only U+017F (long s) and
  U+212A (Kelvin sign) have an ASCII rune in their orbit; every other rune has a
  non-ASCII image, which the model leaves as the rune itself. Folded keys are only ever
  compared with the folded field names, which are ASCII, so the comparison is the same.
\<close>

fun foldName :: "string \<Rightarrow> string" where
  "foldName [] = []"
| "foldName (c # s) =
     (if 0x61 \<le> byte c \<and> byte c \<le> 0x7A then char_of (byte c - 0x20) # foldName s
      else if c = CHR 0xC5 \<and> take 1 s = [CHR 0xBF] then CHR ''S'' # foldName (drop 1 s)
      else if c = CHR 0xE2 \<and> take 2 s = [CHR 0x84, CHR 0xAA] then CHR ''K'' # foldName (drop 2 s)
      else c # foldName s)"

text \<open>
  The field of \<^verbatim>\<open>Character\<close> an object key selects: the field whose \<^verbatim>\<open>json\<close> tag is
  the key, or else the field whose folded tag is the folded key.
\<close>

definition field_of_key :: "string \<Rightarrow> field option" where
  "field_of_key key =
     (if key = ''name'' then Some FieldName
      else if key = ''kind'' then Some FieldKind
      else if foldName key = foldName ''name'' then Some FieldName
      else if foldName key = foldName ''kind'' then Some FieldKind
      else None)"

definition field_name :: "field \<Rightarrow> string" where
  "field_name f = (case f of FieldName \<Rightarrow> ''name'' | FieldKind \<Rightarrow> ''kind'')"

definition set_field :: "field \<Rightarrow> string \<Rightarrow> Character \<Rightarrow> Character" where
  "set_field f v c = (case f of FieldName \<Rightarrow> c\<lparr>Name := v\<rparr> | FieldKind \<Rightarrow> c\<lparr>Kind := v\<rparr>)"

text \<open>\<^verbatim>\<open>saveError\<close> keeps the first error only; decoding goes on after it.\<close>

definition saveError :: "json_error \<Rightarrow> json_error option \<Rightarrow> json_error option" where
  "saveError e saved = (case saved of None \<Rightarrow> Some e | Some e' \<Rightarrow> Some e')"

text \<open>
  A member value stored into a string field: a string is stored, \<^verbatim>\<open>null\<close> leaves the
  field as it is, and any other value is a type error.
\<close>

definition store_string_field ::
  "field \<Rightarrow> json \<Rightarrow> Character \<times> json_error option \<Rightarrow> Character \<times> json_error option" where
  "store_string_field f v st =
     (case v of
        JString x \<Rightarrow> (set_field f x (fst st), snd st)
      | JNull \<Rightarrow> st
      | JBool _ \<Rightarrow> (fst st, saveError (UnmarshalTypeError ''bool'' (field_name f)) (snd st))
      | JNumber _ \<Rightarrow> (fst st, saveError (UnmarshalTypeError ''number'' (field_name f)) (snd st))
      | JArray _ \<Rightarrow> (fst st, saveError (UnmarshalTypeError ''array'' (field_name f)) (snd st))
      | JObject _ \<Rightarrow> (fst st, saveError (UnmarshalTypeError ''object'' (field_name f)) (snd st)))"

text \<open>The loop of \<^verbatim>\<open>object\<close> over the members: a key without a field is skipped.\<close>

fun decode_members ::
  "(string \<times> json) list \<Rightarrow> Character \<times> json_error option \<Rightarrow> Character \<times> json_error option" where
  "decode_members [] st = st"
| "decode_members ((key, v) # ms) st =
     decode_members ms
       (case field_of_key key of
          None \<Rightarrow> st
        | Some f \<Rightarrow> store_string_field f v st)"

text \<open>
  The top-level value decoded into the struct: an object fills the fields, \<^verbatim>\<open>null\<close>
  leaves the struct as it is, and any other value is a type error.
\<close>

definition decode_value :: "json \<Rightarrow> Character \<Rightarrow> json_error + Character" where
  "decode_value v c =
     (case v of
        JObject ms \<Rightarrow>
          (case decode_members ms (c, None) of
             (c', None) \<Rightarrow> Inr c'
           | (c', Some e) \<Rightarrow> Inl e)
      | JNull \<Rightarrow> Inr c
      | JBool _ \<Rightarrow> Inl (UnmarshalTypeError ''bool'' [])
      | JNumber _ \<Rightarrow> Inl (UnmarshalTypeError ''number'' [])
      | JString _ \<Rightarrow> Inl (UnmarshalTypeError ''string'' [])
      | JArray _ \<Rightarrow> Inl (UnmarshalTypeError ''array'' []))"

text \<open>
  \<^verbatim>\<open>json.Unmarshal(data, &character)\<close>. On an error the program exits, so the partly
  filled struct that Go leaves behind is not returned.
\<close>

definition Unmarshal :: "string \<Rightarrow> Character \<Rightarrow> json_error + Character" where
  "Unmarshal data c =
     (case parse_json data of
        None \<Rightarrow> Inl SyntaxError
      | Some v \<Rightarrow> decode_value v c)"

section \<open>Encoding the schema\<close>

definition htmlSafe :: "char \<Rightarrow> bool" where
  "htmlSafe c =
     (0x20 \<le> byte c \<and> byte c < 0x80 \<and> c \<noteq> CHR 0x22 \<and> c \<noteq> CHR 0x5C
      \<and> c \<noteq> CHR ''<'' \<and> c \<noteq> CHR ''>'' \<and> c \<noteq> CHR ''&'')"

definition hex_digit :: "nat \<Rightarrow> char" where
  "hex_digit d = ''0123456789abcdef'' ! d"

text \<open>
  The body of \<^verbatim>\<open>appendString\<close> with HTML escaping, as \<^verbatim>\<open>json.Marshal\<close> uses it
  (Go 1.22 and later, which write \<^verbatim>\<open>\b\<close> and \<^verbatim>\<open>\f\<close> in the short form).
\<close>

fun encode_string_loop :: "string \<Rightarrow> string" where
  "encode_string_loop [] = []"
| "encode_string_loop (c # s) =
     (if byte c < 0x80 then
        (if htmlSafe c then [c]
         else if c = CHR 0x5C \<or> c = CHR 0x22 then [CHR 0x5C, c]
         else if c = CHR 0x08 then [CHR 0x5C, CHR ''b'']
         else if c = CHR 0x0C then [CHR 0x5C, CHR ''f'']
         else if c = CHR 0x0A then [CHR 0x5C, CHR ''n'']
         else if c = CHR 0x0D then [CHR 0x5C, CHR ''r'']
         else if c = CHR 0x09 then [CHR 0x5C, CHR ''t'']
         else [CHR 0x5C, CHR ''u'', CHR ''0'', CHR ''0'', hex_digit (byte c div 16), hex_digit (byte c mod 16)])
        @ encode_string_loop s
      else
        (let w = utf8_width (c # s) in
         if w = 0 then CHR 0x5C # ''ufffd'' @ encode_string_loop s
         else if take 3 (c # s) = [CHR 0xE2, CHR 0x80, CHR 0xA8]
           then CHR 0x5C # ''u2028'' @ encode_string_loop (drop 2 s)
         else if take 3 (c # s) = [CHR 0xE2, CHR 0x80, CHR 0xA9]
           then CHR 0x5C # ''u2029'' @ encode_string_loop (drop 2 s)
         else take w (c # s) @ encode_string_loop (drop (w - 1) s)))"

definition appendString :: "string \<Rightarrow> string" where
  "appendString src = CHR 0x22 # encode_string_loop src @ [CHR 0x22]"

text \<open>Map keys are written in the byte-wise order of \<^verbatim>\<open>strings.Compare\<close>.\<close>

fun string_le :: "string \<Rightarrow> string \<Rightarrow> bool" where
  "string_le [] _ = True"
| "string_le (_ # _) [] = False"
| "string_le (a # as) (b # bs) = (byte a < byte b \<or> (a = b \<and> string_le as bs))"

fun insert_by_key :: "string \<times> 'a \<Rightarrow> (string \<times> 'a) list \<Rightarrow> (string \<times> 'a) list" where
  "insert_by_key kv [] = [kv]"
| "insert_by_key kv (x # xs) =
     (if string_le (fst kv) (fst x) then kv # x # xs else x # insert_by_key kv xs)"

definition sort_by_key :: "(string \<times> 'a) list \<Rightarrow> (string \<times> 'a) list" where
  "sort_by_key kvs = foldr insert_by_key kvs []"

fun join_with_comma :: "string list \<Rightarrow> string" where
  "join_with_comma [] = []"
| "join_with_comma [x] = x"
| "join_with_comma (x # y # xs) = x @ '','' @ join_with_comma (y # xs)"

text \<open>
  \<^verbatim>\<open>json.Marshal\<close> on the values the schema is made of. The Go maps, slices and
  strings of the schema are written as the JSON values they encode to: a
  \<^verbatim>\<open>map[string]any\<close> is a \<^const>\<open>JObject\<close> (its members in the order of the source
  text; the encoder sorts them by key), a \<^verbatim>\<open>[]string\<close> is a \<^const>\<open>JArray\<close> of strings.
\<close>

fun Marshal :: "json \<Rightarrow> string"
  and marshal_elems :: "json list \<Rightarrow> string list"
  and marshal_members :: "(string \<times> json) list \<Rightarrow> (string \<times> string) list" where
  "Marshal JNull = ''null''"
| "Marshal (JBool b) = (if b then ''true'' else ''false'')"
| "Marshal (JNumber n) = n"
| "Marshal (JString x) = appendString x"
| "Marshal (JArray vs) = ''['' @ join_with_comma (marshal_elems vs) @ '']''"
| "Marshal (JObject ms) =
     ''{'' @ join_with_comma (map (\<lambda>kv. appendString (fst kv) @ '':'' @ snd kv)
                               (sort_by_key (marshal_members ms))) @ ''}''"
| "marshal_elems [] = []"
| "marshal_elems (v # vs) = Marshal v # marshal_elems vs"
| "marshal_members [] = []"
| "marshal_members ((k, v) # ms) = (k, Marshal v) # marshal_members ms"

text \<open>
  Two JSON documents are structurally equal when they agree after the members of every
  object are put in key order.
\<close>

fun canonical :: "json \<Rightarrow> json"
  and canonical_elems :: "json list \<Rightarrow> json list"
  and canonical_members :: "(string \<times> json) list \<Rightarrow> (string \<times> json) list" where
  "canonical JNull = JNull"
| "canonical (JBool b) = JBool b"
| "canonical (JNumber n) = JNumber n"
| "canonical (JString x) = JString x"
| "canonical (JArray vs) = JArray (canonical_elems vs)"
| "canonical (JObject ms) = JObject (sort_by_key (canonical_members ms))"
| "canonical_elems [] = []"
| "canonical_elems (v # vs) = canonical v # canonical_elems vs"
| "canonical_members [] = []"
| "canonical_members ((k, v) # ms) = (k, canonical v) # canonical_members ms"

section \<open>The program\<close>

text \<open>The types of the client library that the program fills in.\<close>

record Message =
  Role :: string
  Content :: string

text \<open>
  The values of the options map: an untyped integer constant is stored as an \<^verbatim>\<open>int\<close>,
  an untyped floating-point constant as the \<^verbatim>\<open>float64\<close> its decimal literal denotes.
  The program does no arithmetic on them.
\<close>

datatype option_value = IntValue int | FloatValue real

record ChatRequest =
  Model :: string
  Messages :: "Message list"
  Options :: "string \<rightharpoonup> option_value"
  Format :: string
  Stream :: "bool option"

definition systemInstructions :: string where
  "systemInstructions = concat
     [''You are an expert NPC generator for games like D&D. \<newline>'',
      CHR 0x09 # ''You have freedom to be creative to get the best possible output.\<newline>'',
      [CHR 0x09]]"

definition generationInstructions :: string where
  "generationInstructions = concat
     [''\<newline>'',
      CHR 0x09 # ''## Suggested Generation Rules\<newline>'',
      ''\<newline>'',
      CHR 0x09 # ''For generating consistent names, here are some guidelines:\<newline>'',
      ''\<newline>'',
      CHR 0x09 # ''### Dwarves\<newline>'',
      CHR 0x09 # ''- Favor hard consonants (k, t, d, g)\<newline>'',
      CHR 0x09 # ''- Use short, punchy sounds\<newline>'',
      CHR 0x09 # ''- Incorporate references to metals, stones, forging\<newline>'',
      CHR 0x09 # ''- Clan names often hyphenated or compound words\<newline>'',
      CHR 0x09 # ''- Common suffixes: -in, -or, -ar, -im\<newline>'',
      ''\<newline>'',
      CHR 0x09 # ''### Elves\<newline>'',
      CHR 0x09 # ''- Favor fluid consonants (l, n, r)\<newline>'',
      CHR 0x09 # ''- Use many vowels\<newline>'',
      CHR 0x09 # ''- Incorporate nature and star references\<newline>'',
      CHR 0x09 # ''- Names typically long and melodious\<newline>'',
      CHR 0x09 # ''- Common prefixes: El-, Cel-, Gal-\<newline>'',
      CHR 0x09 # ''- Common suffixes: -il, -iel, -or, -ion\<newline>'',
      ''\<newline>'',
      CHR 0x09 # ''### Humans\<newline>'',
      CHR 0x09 # ''- Greater variety of sounds\<newline>'',
      CHR 0x09 # ''- Mix of short and long names\<newline>'',
      CHR 0x09 # ''- Can borrow elements from other races\<newline>'',
      CHR 0x09 # ''- Family names often descriptive or location-based\<newline>'',
      CHR 0x09 # ''- Common suffixes: -or, -wyn, -iel\<newline>'',
      CHR 0x09 # ''- Common prefixes: Theo-, El-, Ar-'' @ CHR 0x09 # ''\<newline>'',
      ''\<newline>'',
      CHR 0x09 # ''## Usage Notes\<newline>'',
      CHR 0x09 # ''Names can be modified or combined to create new variations while maintaining the essence of each race.\<newline>'',
      ''\<newline>'',
      CHR 0x09 # ''### Pattern Examples\<newline>'',
      CHR 0x09 # ''- Dwarf: [Hard Consonant] + [Short Vowel] + [Hard Consonant] + [Suffix]\<newline>'',
      CHR 0x09 # ''- Elf: [Nature Word] + [Fluid Consonant] + [Long Vowel] + [Melodic Ending]\<newline>'',
      CHR 0x09 # ''- Human: [Strong Consonant] + [Vowel] + [Cultural Suffix]\<newline>'',
      ''\<newline>'',
      CHR 0x09 # ''### Cultural Considerations\<newline>'',
      CHR 0x09 # ''- Dwarf names often reflect their crafts or achievements\<newline>'',
      CHR 0x09 # ''- Elf names might change throughout their long lives\<newline>'',
      CHR 0x09 # ''- Human names vary by region and social status\<newline>'',
      [CHR 0x09]]"


definition schema :: json where
  "schema =
     JObject
       [(''type'', JString ''object''),
        (''properties'',
           JObject
             [(''name'', JObject [(''type'', JString ''string'')]),
              (''kind'', JObject [(''type'', JString ''string'')])]),
        (''required'', JArray [JString ''name'', JString ''kind''])]"

definition jsonModel :: string where
  "jsonModel = Marshal schema"

definition userContent :: "string \<Rightarrow> string" where
  "userContent kind =
     ''Generate a random name for an '' @ kind @ '' (kind always equals '' @ kind @ '').''"

text \<open>The message list of \<^verbatim>\<open>02-generate-names\<close> and the one of \<^verbatim>\<open>03-generate-names\<close>.\<close>

definition messages_minimal :: "string \<Rightarrow> Message list" where
  "messages_minimal kind =
     [\<lparr>Role = ''system'', Content = systemInstructions\<rparr>,
      \<lparr>Role = ''user'', Content = userContent kind\<rparr>]"

definition messages_guided :: "string \<Rightarrow> Message list" where
  "messages_guided kind =
     [\<lparr>Role = ''system'', Content = systemInstructions\<rparr>,
      \<lparr>Role = ''system'', Content = generationInstructions\<rparr>,
      \<lparr>Role = ''user'', Content = userContent kind\<rparr>]"

definition noStream :: bool where
  "noStream = False"

definition req :: "string \<Rightarrow> Message list \<Rightarrow> ChatRequest" where
  "req model messages =
     \<lparr>Model = model,
      Messages = messages,
      Options = [''temperature'' \<mapsto> FloatValue 1.7,
                 ''repeat_last_n'' \<mapsto> IntValue 2,
                 ''repeat_penalty'' \<mapsto> FloatValue 2.2,
                 ''top_k'' \<mapsto> IntValue 10,
                 ''top_p'' \<mapsto> FloatValue 0.9],
      Format = jsonModel,
      Stream = Some noStream\<rparr>"

text \<open>
  What the program meets outside itself: the process environment, the result of
  \<^verbatim>\<open>api.ClientFromEnvironment\<close> (an error message, or none), the answer of the
  inference server to the \<open>i\<close>-th call of \<^verbatim>\<open>client.Chat\<close> (an error, or the content of
  the response message that the callback stores), and the result of \<^verbatim>\<open>os.WriteFile\<close>.
\<close>

record world =
  env :: "string \<rightharpoonup> string"
  client_error :: "string option"
  chat :: "nat \<Rightarrow> ChatRequest \<Rightarrow> string + string"
  write_error :: "string \<Rightarrow> string \<Rightarrow> nat \<Rightarrow> string option"

text \<open>\<^verbatim>\<open>os.Getenv\<close>: the empty string when the variable is not set.\<close>

definition Getenv :: "(string \<rightharpoonup> string) \<Rightarrow> string \<Rightarrow> string" where
  "Getenv e key = (case e key of None \<Rightarrow> [] | Some v \<Rightarrow> v)"

text \<open>The reasons for \<^verbatim>\<open>log.Fatal\<close>, which prints and exits with status 1.\<close>

datatype fatal =
    ClientError string
  | ChatError string
  | ParseError json_error
  | WriteError string

text \<open>
  What a run does that can be seen from outside: its exit status, the reason of a
  fatal exit, the chat requests handed to the client in order, and the calls of
  \<^verbatim>\<open>os.WriteFile\<close> with path, content and permission bits. Console output is left out.
\<close>

record outcome =
  exit_code :: nat
  failure :: "fatal option"
  requests :: "ChatRequest list"
  writes :: "(string \<times> string \<times> nat) list"

text \<open>
  The batch loop, from iteration \<open>i\<close> with \<open>n\<close> iterations to go. Each iteration
  hands the request to the client, decodes the content into a fresh \<^verbatim>\<open>Character{}\<close>
  and appends it; the first error ends the loop.
\<close>

definition zero_Character :: Character where
  "zero_Character = \<lparr>Name = [], Kind = []\<rparr>"

fun batch_loop ::
  "world \<Rightarrow> ChatRequest \<Rightarrow> nat \<Rightarrow> nat \<Rightarrow> ChatRequest list \<Rightarrow> Character list
     \<Rightarrow> ChatRequest list \<times> (fatal + Character list)" where
  "batch_loop w r i 0 sent characters = (sent, Inr characters)"
| "batch_loop w r i (Suc n) sent characters =
     (case chat w i r of
        Inl e \<Rightarrow> (sent @ [r], Inl (ChatError e))
      | Inr jsonStr \<Rightarrow>
          (case Unmarshal jsonStr zero_Character of
             Inl e \<Rightarrow> (sent @ [r], Inl (ParseError e))
           | Inr character \<Rightarrow> batch_loop w r (Suc i) n (sent @ [r]) (characters @ [character])))"

definition file_mode :: nat where
  "file_mode = 6 * 64 + 4 * 8 + 4"

definition file_path :: "string \<Rightarrow> string" where
  "file_path kind = ''./characters.'' @ kind @ ''.md''"

text \<open>
  \<^verbatim>\<open>main\<close>, with the three places where the two programs and their commented-out
  alternatives differ taken as parameters: the kind, the message list and the number of
  iterations.
\<close>

definition program :: "string \<Rightarrow> (string \<Rightarrow> Message list) \<Rightarrow> nat \<Rightarrow> world \<Rightarrow> outcome" where
  "program kind messages batch_size w =
     (let model = Getenv (env w) ''LLM'' in
      case client_error w of
        Some e \<Rightarrow> \<lparr>exit_code = 1, failure = Some (ClientError e), requests = [], writes = []\<rparr>
      | None \<Rightarrow>
          (case batch_loop w (req model (messages kind)) 0 batch_size [] [] of
             (sent, Inl e) \<Rightarrow> \<lparr>exit_code = 1, failure = Some e, requests = sent, writes = []\<rparr>
           | (sent, Inr characters) \<Rightarrow>
               (let call = (file_path kind, markdownTable characters, file_mode) in
                case write_error w (file_path kind) (markdownTable characters) file_mode of
                  Some e \<Rightarrow> \<lparr>exit_code = 1, failure = Some (WriteError e), requests = sent, writes = [call]\<rparr>
                | None \<Rightarrow> \<lparr>exit_code = 0, failure = None, requests = sent, writes = [call]\<rparr>)))"

definition main_02 :: "world \<Rightarrow> outcome" where
  "main_02 = program ''Dwarf'' messages_minimal 15"

definition main_03 :: "world \<Rightarrow> outcome" where
  "main_03 = program ''Dwarf'' messages_guided 15"

section \<open>Notions used to state the properties\<close>

text \<open>
  The strings an object gives for a field: the string values of the members whose key
  selects the field, in the order of the text.
\<close>

definition field_strings :: "field \<Rightarrow> (string \<times> json) list \<Rightarrow> string list" where
  "field_strings f ms =
     concat (map (\<lambda>kv. if field_of_key (fst kv) = Some f
                         then (case snd kv of JString x \<Rightarrow> [x] | _ \<Rightarrow> [])
                         else []) ms)"

definition last_or :: "string \<Rightarrow> string list \<Rightarrow> string" where
  "last_or d xs = (if xs = [] then d else last xs)"

text \<open>
  The members of an object fit the struct when every member whose key selects a field
  holds a string or \<^verbatim>\<open>null\<close>.
\<close>

definition string_or_null :: "json \<Rightarrow> bool" where
  "string_or_null v = (case v of JString _ \<Rightarrow> True | JNull \<Rightarrow> True | _ \<Rightarrow> False)"

definition members_fit :: "(string \<times> json) list \<Rightarrow> bool" where
  "members_fit ms = list_all (\<lambda>kv. field_of_key (fst kv) = None \<or> string_or_null (snd kv)) ms"

text \<open>
  Validity against the declared response schema, which asks for an object with the
  required properties \<^verbatim>\<open>name\<close> and \<^verbatim>\<open>kind\<close>, both strings, and says nothing
  about other properties: the members under each of the two keys are strings, and there
  is at least one.
\<close>

definition property_values :: "string \<Rightarrow> (string \<times> json) list \<Rightarrow> json list" where
  "property_values key ms = map snd (filter (\<lambda>kv. fst kv = key) ms)"

definition is_string :: "json \<Rightarrow> bool" where
  "is_string v = (case v of JString _ \<Rightarrow> True | _ \<Rightarrow> False)"

definition satisfies_schema :: "json \<Rightarrow> bool" where
  "satisfies_schema v =
     (case v of
        JObject ms \<Rightarrow>
          property_values ''name'' ms \<noteq> [] \<and> list_all is_string (property_values ''name'' ms)
          \<and> property_values ''kind'' ms \<noteq> [] \<and> list_all is_string (property_values ''kind'' ms)
      | _ \<Rightarrow> False)"

text \<open>One iteration of the batch loop: the chat call, then the decoding of its content.\<close>

definition generate_one :: "world \<Rightarrow> ChatRequest \<Rightarrow> nat \<Rightarrow> fatal + Character" where
  "generate_one w r i =
     (case chat w i r of
        Inl e \<Rightarrow> Inl (ChatError e)
      | Inr jsonStr \<Rightarrow>
          (case Unmarshal jsonStr zero_Character of
             Inl e \<Rightarrow> Inl (ParseError e)
           | Inr character \<Rightarrow> Inr character))"

text \<open>
  A world for concrete runs: the environment \<open>e\<close>, a client that is created, an
  endpoint stub that gives the \<open>i\<close>-th call the answer \<open>answers i\<close>, and a file system
  that takes the write.
\<close>

definition stub_world :: "(string \<rightharpoonup> string) \<Rightarrow> (nat \<Rightarrow> string + string) \<Rightarrow> world" where
  "stub_world e answers =
     \<lparr>env = e, client_error = None, chat = (\<lambda>i r. answers i), write_error = (\<lambda>path content mode. None)\<rparr>"

definition full_env :: "string \<rightharpoonup> string" where
  "full_env = [''OLLAMA_HOST'' \<mapsto> ''http://localhost:11434'', ''LLM'' \<mapsto> ''qwen2.5:0.5b'']"

definition host_only_env :: "string \<rightharpoonup> string" where
  "host_only_env = [''OLLAMA_HOST'' \<mapsto> ''http://localhost:11434'']"

text \<open>Endpoint stubs: the same answer to every call, or the answers of a list in turn.\<close>

definition constant_answer :: "string + string \<Rightarrow> nat \<Rightarrow> string + string" where
  "constant_answer a i = a"

definition answers_list :: "(string + string) list \<Rightarrow> string + string \<Rightarrow> nat \<Rightarrow> string + string" where
  "answers_list xs d i = (if i < length xs then xs ! i else d)"

text \<open>
  The stubs of the concrete scenarios: an endpoint that always answers with the
  character Thorin, and one that answers \<^verbatim>\<open>not-json\<close> to the third call.
\<close>

definition thorin_content :: string where
  "thorin_content = ''{\"name\":\"Thorin\",\"kind\":\"Dwarf\"}''"

definition thorin_world :: world where
  "thorin_world = stub_world full_env (constant_answer (Inr thorin_content))"

definition malformed_world :: world where
  "malformed_world =
     stub_world full_env
       (answers_list [Inr thorin_content, Inr thorin_content, Inr ''not-json''] (Inr thorin_content))"

text \<open>
  Further answers of the endpoint stub: an object without \<^verbatim>\<open>name\<close>, an object with
  empty strings, an object whose name holds the escape of a newline, objects that give
  the kind \<^verbatim>\<open>knight\<close> alone or together with a second member whose key differs from
  \<^verbatim>\<open>kind\<close> only in case, and the character Elara for a batch of one.
\<close>

definition missing_name_content :: string where
  "missing_name_content = ''{\"kind\":\"Dwarf\"}''"

definition missing_name_world :: world where
  "missing_name_world = stub_world full_env (constant_answer (Inr missing_name_content))"

definition empty_fields_content :: string where
  "empty_fields_content = ''{\"name\":\"\",\"kind\":\"\"}''"

definition empty_fields_world :: world where
  "empty_fields_world = stub_world full_env (constant_answer (Inr empty_fields_content))"

definition newline_content :: string where
  "newline_content = ''{\"name\":\"A'' @ [CHR 0x5C] @ ''nB\",\"kind\":\"Elf\"}''"

definition newline_world :: world where
  "newline_world = stub_world full_env (constant_answer (Inr newline_content))"

definition karl_content :: string where
  "karl_content = ''{\"name\":\"Karl\",\"kind\":\"knight\"}''"

definition karl_world :: world where
  "karl_world = stub_world full_env (constant_answer (Inr karl_content))"

definition karl_number_content :: string where
  "karl_number_content = ''{\"name\":\"Karl\",\"kind\":\"knight\",\"KIND\":7}''"

definition karl_second_kind_content :: string where
  "karl_second_kind_content = ''{\"name\":\"Karl\",\"kind\":\"knight\",\"Kind\":\"Elf\"}''"

definition elara_content :: string where
  "elara_content = ''{\"name\":\"Elara\",\"kind\":\"Elf\"}''"

definition elara_world :: world where
  "elara_world = stub_world full_env (constant_answer (Inr elara_content))"

text \<open>
  Worlds in which the variable \<^verbatim>\<open>LLM\<close> is not set: one whose server answers all the
  same, and one whose server refuses the request.
\<close>

definition no_model_world :: world where
  "no_model_world = stub_world host_only_env (constant_answer (Inr thorin_content))"

definition no_model_refused_world :: world where
  "no_model_refused_world = stub_world host_only_env (constant_answer (Inl ''model is required''))"

section \<open>Properties of the Table Writer\<close>

lemma byte_char_of: "byte (char_of (n::nat)) = n mod 256"
  by (simp add: byte_def)

lemma digit_char_not_newline: "d < 10 \<Longrightarrow> digit_char d \<noteq> CHR 0x0A"
proof
  assume d: "d < 10" and e: "digit_char d = CHR 0x0A"
  from e have "byte (digit_char d) = byte (CHR 0x0A)" by simp
  then have "(48 + d) mod 256 = 10" by (simp add: digit_char_def byte_def)
  with d show False by simp
qed

lemma nat_digits_no_newline: "CHR 0x0A \<notin> set (nat_digits n)"
proof (induction n rule: nat_digits.induct)
  case (1 n)
  show ?case
  proof (cases "n < 10")
    case True
    then show ?thesis using digit_char_not_newline [of n] by (subst nat_digits.simps) auto
  next
    case False
    have "n mod 10 < 10" by simp
    then have "digit_char (n mod 10) \<noteq> CHR 0x0A" by (rule digit_char_not_newline)
    with False 1 show ?thesis by (subst nat_digits.simps) auto
  qed
qed

lemma fmt_d_no_newline: "CHR 0x0A \<notin> set (fmt_d i)"
  by (simp add: fmt_d_def nat_digits_no_newline)

lemma add_rows_append: "add_rows tbl idx cs = tbl @ add_rows [] idx cs"
proof (induction cs arbitrary: tbl idx)
  case Nil
  show ?case by simp
next
  case (Cons c cs)
  have a: "add_rows (tbl @ table_row idx c) (idx + 1) cs = (tbl @ table_row idx c) @ add_rows [] (idx + 1) cs"
    by (rule Cons.IH)
  have b: "add_rows (table_row idx c) (idx + 1) cs = table_row idx c @ add_rows [] (idx + 1) cs"
    by (rule Cons.IH)
  show ?case by (simp add: a b)
qed

lemma add_rows_concat:
  "add_rows [] idx cs = concat (map (\<lambda>i. table_row (idx + int i) (cs ! i)) [0..<length cs])"
proof (induction cs arbitrary: idx)
  case Nil
  show ?case by simp
next
  case (Cons c cs)
  have "add_rows [] idx (c # cs) = table_row idx c @ add_rows [] (idx + 1) cs"
    using add_rows_append [of "table_row idx c" "idx + 1" cs] by simp
  moreover have "map (\<lambda>i. table_row (idx + int i) ((c # cs) ! i)) [0..<length (c # cs)]
      = table_row idx c # map (\<lambda>i. table_row (idx + 1 + int i) (cs ! i)) [0..<length cs]"
    by (simp add: map_upt_Suc del: upt_Suc) (simp add: add.commute add.left_commute)
  ultimately show ?case using Cons.IH [of "idx + 1"] by simp
qed

lemma lines_from_no_newline:
  "CHR 0x0A \<notin> set xs \<Longrightarrow> lines_from cur (xs @ CHR 0x0A # ys) = (cur @ xs) # lines_from [] ys"
  by (induction xs arbitrary: cur) auto

lemma lines_from_length:
  "length (lines_from cur (xs @ [CHR 0x0A])) = Suc (count_list xs (CHR 0x0A))"
  by (induction xs arbitrary: cur) auto

lemma count_table_row:
  "count_list (table_row idx c) (CHR 0x0A)
     = Suc (count_list (Name c) (CHR 0x0A) + count_list (Kind c) (CHR 0x0A))"
proof -
  have "count_list (fmt_d (idx + 1)) (CHR 0x0A) = 0"
    using fmt_d_no_newline [of "idx + 1"] by (simp add: count_list_0_iff)
  then show ?thesis by (simp add: table_row_def)
qed

lemma count_add_rows:
  "count_list (add_rows [] idx cs) (CHR 0x0A)
     = length cs + sum_list (map (\<lambda>c. count_list (Name c) (CHR 0x0A) + count_list (Kind c) (CHR 0x0A)) cs)"
proof (induction cs arbitrary: idx)
  case Nil
  show ?case by simp
next
  case (Cons c cs)
  have "add_rows [] idx (c # cs) = table_row idx c @ add_rows [] (idx + 1) cs"
    using add_rows_append [of "table_row idx c" "idx + 1" cs] by simp
  then show ?case using Cons.IH [of "idx + 1"] by (simp add: count_table_row)
qed

lemma markdownTable_split:
  "markdownTable cs = table_header @ table_separator @ add_rows [] 0 cs"
  using add_rows_append [of "table_header @ table_separator" 0 cs] by (simp add: markdownTable_def)

lemma add_rows_ends_with_newline:
  "cs \<noteq> [] \<Longrightarrow> \<exists>body. add_rows [] idx cs = body @ [CHR 0x0A]"
proof (induction cs arbitrary: idx)
  case Nil
  then show ?case by simp
next
  case (Cons c cs)
  have split: "add_rows [] idx (c # cs) = table_row idx c @ add_rows [] (idx + 1) cs"
    using add_rows_append [of "table_row idx c" "idx + 1" cs] by simp
  show ?case
  proof (cases "cs = []")
    case True
    then show ?thesis by (simp add: table_row_def)
  next
    case False
    then obtain body where "add_rows [] (idx + 1) cs = body @ [CHR 0x0A]"
      using Cons.IH by blast
    then have "add_rows [] idx (c # cs) = (table_row idx c @ body) @ [CHR 0x0A]"
      using split by simp
    then show ?thesis by blast
  qed
qed

lemma markdownTable_line_count:
  "length (text_lines (markdownTable cs)) = count_list (markdownTable cs) (CHR 0x0A)"
proof -
  have "\<exists>body. markdownTable cs = body @ [CHR 0x0A]"
  proof (cases "cs = []")
    case True
    then show ?thesis by (simp add: markdownTable_def table_header_def table_separator_def)
  next
    case False
    then obtain body where "add_rows [] 0 cs = body @ [CHR 0x0A]"
      using add_rows_ends_with_newline by blast
    then have "markdownTable cs = (table_header @ table_separator @ body) @ [CHR 0x0A]"
      by (simp add: markdownTable_split)
    then show ?thesis by blast
  qed
  then obtain body where b: "markdownTable cs = body @ [CHR 0x0A]" by blast
  show ?thesis unfolding text_lines_def b by (simp add: lines_from_length)
qed

lemma count_markdownTable:
  "count_list (markdownTable cs) (CHR 0x0A)
     = length cs + 2 + sum_list (map (\<lambda>c. count_list (Name c) (CHR 0x0A) + count_list (Kind c) (CHR 0x0A)) cs)"
  by (simp add: markdownTable_split count_add_rows table_header_def table_separator_def)

lemma lines_add_rows:
  "\<forall>c\<in>set cs. CHR 0x0A \<notin> set (Name c) \<and> CHR 0x0A \<notin> set (Kind c) \<Longrightarrow>
   lines_from [] (add_rows [] idx cs)
     = map (\<lambda>i. ''| '' @ fmt_d (idx + int i + 1) @ ''   | '' @ Name (cs ! i) @ ''      | ''
                    @ Kind (cs ! i) @ ''       |'') [0..<length cs]"
proof (induction cs arbitrary: idx)
  case Nil
  show ?case by simp
next
  case (Cons c cs)
  let ?line = "''| '' @ fmt_d (idx + 1) @ ''   | '' @ Name c @ ''      | '' @ Kind c @ ''       |''"
  have nl: "CHR 0x0A \<notin> set ?line"
    using Cons.prems fmt_d_no_newline [of "idx + 1"] by simp
  have "add_rows [] idx (c # cs) = ?line @ CHR 0x0A # add_rows [] (idx + 1) cs"
    using add_rows_append [of "table_row idx c" "idx + 1" cs] by (simp add: table_row_def)
  then have "lines_from [] (add_rows [] idx (c # cs)) = ?line # lines_from [] (add_rows [] (idx + 1) cs)"
    using lines_from_no_newline [OF nl, of "[]" "add_rows [] (idx + 1) cs"] by simp
  moreover have "lines_from [] (add_rows [] (idx + 1) cs)
      = map (\<lambda>i. ''| '' @ fmt_d (idx + 1 + int i + 1) @ ''   | '' @ Name (cs ! i) @ ''      | ''
                    @ Kind (cs ! i) @ ''       |'') [0..<length cs]"
    using Cons.prems by (intro Cons.IH) simp
  ultimately show ?case
    by (simp add: map_upt_Suc del: upt_Suc)
qed

lemma lines_markdownTable:
  assumes "\<forall>c\<in>set cs. CHR 0x0A \<notin> set (Name c) \<and> CHR 0x0A \<notin> set (Kind c)"
  shows "text_lines (markdownTable cs)
     = ''| Index | Name     | Kind       |'' # ''|------|----------|------------|''
       # map (\<lambda>i. ''| '' @ fmt_d (int i + 1) @ ''   | '' @ Name (cs ! i) @ ''      | ''
                    @ Kind (cs ! i) @ ''       |'') [0..<length cs]"
proof -
  have h: "CHR 0x0A \<notin> set ''| Index | Name     | Kind       |''" by simp
  have s: "CHR 0x0A \<notin> set ''|------|----------|------------|''" by simp
  have "markdownTable cs = ''| Index | Name     | Kind       |'' @ CHR 0x0A #
          (''|------|----------|------------|'' @ CHR 0x0A # add_rows [] 0 cs)"
    by (simp add: markdownTable_split table_header_def table_separator_def)
  then have "text_lines (markdownTable cs) = ''| Index | Name     | Kind       |'' #
       ''|------|----------|------------|'' # lines_from [] (add_rows [] 0 cs)"
    unfolding text_lines_def
    using lines_from_no_newline [OF h, of "[]"] lines_from_no_newline [OF s, of "[]"] by simp
  then show ?thesis using lines_add_rows [OF assms, of 0] by simp
qed

text \<open>
  Claim C10. The Table Writer copies the bytes of each record's name and kind into the
  row template \<^verbatim>\<open>| <index>   | <name>      | <kind>       |\<close> without escaping
  or sanitising them, so a newline or a pipe in a field appears as it is in the file;
  and when some field holds a newline, the file has more than \<open>batch_size + 2\<close>
  lines.
\<close>

theorem table_rows_verbatim:
  "markdownTable cs =
     ''| Index | Name     | Kind       |\<newline>'' @ ''|------|----------|------------|\<newline>''
     @ concat (map (\<lambda>i. ''| '' @ fmt_d (int i + 1) @ ''   | '' @ Name (cs ! i) @ ''      | ''
                          @ Kind (cs ! i) @ ''       |\<newline>'') [0..<length cs])
   \<and> ((\<exists>c\<in>set cs. CHR 0x0A \<in> set (Name c) \<or> CHR 0x0A \<in> set (Kind c))
        \<longrightarrow> length cs + 2 < length (text_lines (markdownTable cs)))"
proof
  show "markdownTable cs =
     ''| Index | Name     | Kind       |\<newline>'' @ ''|------|----------|------------|\<newline>''
     @ concat (map (\<lambda>i. ''| '' @ fmt_d (int i + 1) @ ''   | '' @ Name (cs ! i) @ ''      | ''
                          @ Kind (cs ! i) @ ''       |\<newline>'') [0..<length cs])"
    using add_rows_concat [of 0 cs]
    by (simp add: markdownTable_split table_header_def table_separator_def table_row_def)
next
  show "(\<exists>c\<in>set cs. CHR 0x0A \<in> set (Name c) \<or> CHR 0x0A \<in> set (Kind c))
        \<longrightarrow> length cs + 2 < length (text_lines (markdownTable cs))"
  proof
    assume "\<exists>c\<in>set cs. CHR 0x0A \<in> set (Name c) \<or> CHR 0x0A \<in> set (Kind c)"
    then obtain c where c: "c \<in> set cs" and n: "CHR 0x0A \<in> set (Name c) \<or> CHR 0x0A \<in> set (Kind c)"
      by blast
    let ?f = "\<lambda>c. count_list (Name c) (CHR 0x0A) + count_list (Kind c) (CHR 0x0A)"
    from n have "?f c \<noteq> 0" by (auto simp: count_list_0_iff)
    then have "0 < ?f c" by simp
    moreover have "?f c \<le> sum_list (map ?f cs)"
      using c by (intro member_le_sum_list) simp_all
    ultimately have "0 < sum_list (map ?f cs)" by linarith
    then show "length cs + 2 < length (text_lines (markdownTable cs))"
      by (simp add: markdownTable_line_count count_markdownTable)
  qed
qed

theorem table_rows_verbatim_witness:
  "(\<exists>c\<in>set [\<lparr>Name = ''A\<newline>B'', Kind = ''x|y''\<rparr>]. CHR 0x0A \<in> set (Name c) \<or> CHR 0x0A \<in> set (Kind c))
   \<and> markdownTable [\<lparr>Name = ''A\<newline>B'', Kind = ''x|y''\<rparr>] =
       ''| Index | Name     | Kind       |\<newline>|------|----------|------------|\<newline>| 1   | A\<newline>B      | x|y       |\<newline>''
   \<and> 3 < length (text_lines (markdownTable [\<lparr>Name = ''A\<newline>B'', Kind = ''x|y''\<rparr>]))"
proof -
  let ?cs = "[\<lparr>Name = ''A\<newline>B'', Kind = ''x|y''\<rparr>]"
  have hyp: "\<exists>c\<in>set ?cs. CHR 0x0A \<in> set (Name c) \<or> CHR 0x0A \<in> set (Kind c)"
    by simp
  have tbl: "markdownTable ?cs =
       ''| Index | Name     | Kind       |\<newline>|------|----------|------------|\<newline>| 1   | A\<newline>B      | x|y       |\<newline>''"
    by code_simp
  have "length ?cs + 2 < length (text_lines (markdownTable ?cs))"
    using table_rows_verbatim [of ?cs] hyp by blast
  then have "3 < length (text_lines (markdownTable ?cs))" by simp
  with hyp tbl show ?thesis by blast
qed

section \<open>Properties of the decoder\<close>

lemma decode_members_error:
  "snd (decode_members ms (c, e)) = None \<longleftrightarrow> e = None \<and> members_fit ms"
proof (induction ms arbitrary: c e)
  case Nil
  show ?case by (simp add: members_fit_def)
next
  case (Cons kv ms)
  obtain k v where kv: "kv = (k, v)" by (cases kv)
  show ?case
  proof (cases "field_of_key k")
    case None
    then show ?thesis using Cons.IH [of c e] by (simp add: kv members_fit_def)
  next
    case (Some f)
    then show ?thesis
      using Cons.IH
      by (cases v) (auto simp: kv members_fit_def store_string_field_def saveError_def string_or_null_def
                         split: option.splits)
  qed
qed

lemma set_field_Name: "Name (set_field f x c) = (if f = FieldName then x else Name c)"
  by (cases f) (simp_all add: set_field_def)

lemma set_field_Kind: "Kind (set_field f x c) = (if f = FieldKind then x else Kind c)"
  by (cases f) (simp_all add: set_field_def)

lemma decode_members_Name:
  "Name (fst (decode_members ms (c, e))) = last_or (Name c) (field_strings FieldName ms)"
proof (induction ms arbitrary: c e)
  case Nil
  show ?case by (simp add: field_strings_def last_or_def)
next
  case (Cons kv ms)
  obtain k v where kv: "kv = (k, v)" by (cases kv)
  show ?case
  proof (cases "field_of_key k")
    case None
    then show ?thesis using Cons.IH [of c e] by (simp add: kv field_strings_def)
  next
    case (Some f)
    then show ?thesis
      using Cons.IH
      by (cases v) (auto simp: kv store_string_field_def field_strings_def last_or_def set_field_Name)
  qed
qed

lemma decode_members_Kind:
  "Kind (fst (decode_members ms (c, e))) = last_or (Kind c) (field_strings FieldKind ms)"
proof (induction ms arbitrary: c e)
  case Nil
  show ?case by (simp add: field_strings_def last_or_def)
next
  case (Cons kv ms)
  obtain k v where kv: "kv = (k, v)" by (cases kv)
  show ?case
  proof (cases "field_of_key k")
    case None
    then show ?thesis using Cons.IH [of c e] by (simp add: kv field_strings_def)
  next
    case (Some f)
    then show ?thesis
      using Cons.IH
      by (cases v) (auto simp: kv store_string_field_def field_strings_def last_or_def set_field_Kind)
  qed
qed

lemma decode_object:
  "decode_value (JObject ms) c0 = Inr c \<longleftrightarrow>
     members_fit ms \<and> c = \<lparr>Name = last_or (Name c0) (field_strings FieldName ms),
                            Kind = last_or (Kind c0) (field_strings FieldKind ms)\<rparr>"
proof -
  obtain c' e' where d: "decode_members ms (c0, None) = (c', e')" by (cases "decode_members ms (c0, None)")
  have e: "e' = None \<longleftrightarrow> members_fit ms"
    using decode_members_error [of ms c0 None] d by simp
  have n: "Name c' = last_or (Name c0) (field_strings FieldName ms)"
    using decode_members_Name [of ms c0 None] d by simp
  have k: "Kind c' = last_or (Kind c0) (field_strings FieldKind ms)"
    using decode_members_Kind [of ms c0 None] d by simp
  have c': "c' = \<lparr>Name = last_or (Name c0) (field_strings FieldName ms),
                  Kind = last_or (Kind c0) (field_strings FieldKind ms)\<rparr>"
    using n k by (cases c') simp
  show ?thesis
    using e c' by (cases e') (auto simp: decode_value_def d)
qed

lemma Unmarshal_Inr_iff:
  "Unmarshal data c0 = Inr c \<longleftrightarrow>
     (parse_json data = Some JNull \<and> c = c0)
     \<or> (\<exists>ms. parse_json data = Some (JObject ms) \<and> members_fit ms
            \<and> c = \<lparr>Name = last_or (Name c0) (field_strings FieldName ms),
                    Kind = last_or (Kind c0) (field_strings FieldKind ms)\<rparr>)"
proof (cases "parse_json data")
  case None
  then show ?thesis by (simp add: Unmarshal_def)
next
  case (Some v)
  show ?thesis
  proof (cases v)
    case (JObject ms)
    then show ?thesis using Some decode_object [of ms c0 c] by (simp add: Unmarshal_def)
  qed (use Some in \<open>auto simp: Unmarshal_def decode_value_def\<close>)
qed

section \<open>Properties of the batch loop and of the program\<close>

lemma batch_loop_step:
  "batch_loop w r i (Suc n) sent cs =
     (case generate_one w r i of
        Inl e \<Rightarrow> (sent @ [r], Inl e)
      | Inr c \<Rightarrow> batch_loop w r (Suc i) n (sent @ [r]) (cs @ [c]))"
  by (simp add: generate_one_def split: sum.splits)

lemma batch_loop_sent:
  "batch_loop w r i n sent cs = (sent', res) \<Longrightarrow> set sent' \<subseteq> set sent \<union> {r}"
proof (induction n arbitrary: i sent cs)
  case 0
  then show ?case by auto
next
  case (Suc n)
  show ?case
  proof (cases "generate_one w r i")
    case (Inl e)
    then show ?thesis using Suc.prems by (auto simp: batch_loop_step simp del: batch_loop.simps)
  next
    case (Inr c)
    then have "batch_loop w r (Suc i) n (sent @ [r]) (cs @ [c]) = (sent', res)"
      using Suc.prems by (simp add: batch_loop_step del: batch_loop.simps)
    from Suc.IH [OF this] show ?thesis by auto
  qed
qed

lemma batch_loop_fail:
  "j < n \<Longrightarrow> \<forall>k<j. \<exists>c. generate_one w r (i + k) = Inr c \<Longrightarrow> generate_one w r (i + j) = Inl e
   \<Longrightarrow> batch_loop w r i n sent cs = (sent @ replicate (Suc j) r, Inl e)"
proof (induction n arbitrary: i j sent cs)
  case 0
  then show ?case by simp
next
  case (Suc n)
  show ?case
  proof (cases j)
    case 0
    then show ?thesis using Suc.prems by (simp add: batch_loop_step del: batch_loop.simps)
  next
    case (Suc j')
    from Suc.prems(2) Suc have "\<exists>c. generate_one w r (i + 0) = Inr c" by blast
    then obtain c where c: "generate_one w r i = Inr c" by auto
    have a: "j' < n" using Suc.prems(1) Suc by simp
    have b: "\<forall>k<j'. \<exists>c. generate_one w r (Suc i + k) = Inr c"
    proof (intro allI impI)
      fix k assume "k < j'"
      then have "Suc k < j" using Suc by simp
      with Suc.prems(2) have "\<exists>c. generate_one w r (i + Suc k) = Inr c" by blast
      then show "\<exists>c. generate_one w r (Suc i + k) = Inr c" by simp
    qed
    have d: "generate_one w r (Suc i + j') = Inl e" using Suc.prems(3) Suc by simp
    have "batch_loop w r (Suc i) n (sent @ [r]) (cs @ [c]) = ((sent @ [r]) @ replicate (Suc j') r, Inl e)"
      by (rule Suc.IH [OF a b d])
    then show ?thesis
      using c Suc by (simp add: batch_loop_step replicate_app_Cons_same del: batch_loop.simps)
  qed
qed

lemma batch_loop_done:
  "batch_loop w r i n sent cs = (sent', Inr cs') \<Longrightarrow>
     sent' = sent @ replicate n r \<and> length cs' = length cs + n \<and> take (length cs) cs' = cs
     \<and> (\<forall>j<n. generate_one w r (i + j) = Inr (cs' ! (length cs + j)))"
proof (induction n arbitrary: i sent cs)
  case 0
  then show ?case by auto
next
  case (Suc n)
  show ?case
  proof (cases "generate_one w r i")
    case (Inl e)
    then show ?thesis using Suc.prems by (simp add: batch_loop_step del: batch_loop.simps)
  next
    case (Inr c)
    then have "batch_loop w r (Suc i) n (sent @ [r]) (cs @ [c]) = (sent', Inr cs')"
      using Suc.prems by (simp add: batch_loop_step del: batch_loop.simps)
    from Suc.IH [OF this]
    have s: "sent' = (sent @ [r]) @ replicate n r"
      and l: "length cs' = length (cs @ [c]) + n"
      and t: "take (length (cs @ [c])) cs' = cs @ [c]"
      and g: "\<forall>j<n. generate_one w r (Suc i + j) = Inr (cs' ! (length (cs @ [c]) + j))"
      by auto
    have t1: "take (length cs) cs' = cs"
    proof -
      have "take (length cs) (take (length (cs @ [c])) cs') = take (length cs) (cs @ [c])"
        by (simp only: t)
      then show ?thesis by simp
    qed
    have c0: "cs' ! length cs = c"
    proof -
      have "cs' ! length cs = take (length (cs @ [c])) cs' ! length cs" by simp
      also have "\<dots> = (cs @ [c]) ! length cs" by (simp only: t)
      finally show ?thesis by simp
    qed
    have g1: "\<forall>j<Suc n. generate_one w r (i + j) = Inr (cs' ! (length cs + j))"
    proof (intro allI impI)
      fix j assume j: "j < Suc n"
      show "generate_one w r (i + j) = Inr (cs' ! (length cs + j))"
      proof (cases j)
        case 0
        then show ?thesis using Inr c0 by simp
      next
        case (Suc j')
        then have "j' < n" using j by simp
        with g have "generate_one w r (Suc i + j') = Inr (cs' ! (length (cs @ [c]) + j'))" by blast
        then show ?thesis using Suc by simp
      qed
    qed
    from s l t1 g1 show ?thesis by (simp add: replicate_app_Cons_same)
  qed
qed

lemma batch_loop_all_ok:
  "\<forall>j<n. \<exists>c. generate_one w r (i + j) = Inr c \<Longrightarrow> \<exists>cs'. batch_loop w r i n sent cs = (sent @ replicate n r, Inr cs')"
proof (induction n arbitrary: i sent cs)
  case 0
  show ?case by simp
next
  case (Suc n)
  from Suc.prems have "\<exists>c. generate_one w r (i + 0) = Inr c" by blast
  then obtain c where c: "generate_one w r i = Inr c" by auto
  have "\<forall>j<n. \<exists>c. generate_one w r (Suc i + j) = Inr c"
  proof (intro allI impI)
    fix j assume "j < n"
    then have "Suc j < Suc n" by simp
    with Suc.prems have "\<exists>c. generate_one w r (i + Suc j) = Inr c" by blast
    then show "\<exists>c. generate_one w r (Suc i + j) = Inr c" by simp
  qed
  from Suc.IH [OF this, of "sent @ [r]" "cs @ [c]"]
  obtain cs' where "batch_loop w r (Suc i) n (sent @ [r]) (cs @ [c]) = ((sent @ [r]) @ replicate n r, Inr cs')"
    by blast
  then show ?case using c by (simp add: batch_loop_step replicate_app_Cons_same del: batch_loop.simps)
qed

lemma program_Inl:
  "client_error w = None \<Longrightarrow>
   batch_loop w (req (Getenv (env w) ''LLM'') (messages kind)) 0 n [] [] = (sent, Inl e) \<Longrightarrow>
   program kind messages n w = \<lparr>exit_code = 1, failure = Some e, requests = sent, writes = []\<rparr>"
  by (simp add: program_def)

lemma program_Inr:
  "client_error w = None \<Longrightarrow>
   batch_loop w (req (Getenv (env w) ''LLM'') (messages kind)) 0 n [] [] = (sent, Inr cs) \<Longrightarrow>
   program kind messages n w =
     (case write_error w (file_path kind) (markdownTable cs) file_mode of
        Some e \<Rightarrow> \<lparr>exit_code = 1, failure = Some (WriteError e), requests = sent,
                    writes = [(file_path kind, markdownTable cs, file_mode)]\<rparr>
      | None \<Rightarrow> \<lparr>exit_code = 0, failure = None, requests = sent,
                  writes = [(file_path kind, markdownTable cs, file_mode)]\<rparr>)"
  by (simp add: program_def Let_def)

lemma program_no_client:
  "client_error w = Some e \<Longrightarrow>
   program kind messages n w = \<lparr>exit_code = 1, failure = Some (ClientError e), requests = [], writes = []\<rparr>"
  by (simp add: program_def)

lemma program_completed:
  assumes "exit_code (program kind messages n w) = 0"
  shows "\<exists>cs. batch_loop w (req (Getenv (env w) ''LLM'') (messages kind)) 0 n [] []
              = (replicate n (req (Getenv (env w) ''LLM'') (messages kind)), Inr cs)
            \<and> length cs = n
            \<and> program kind messages n w =
                \<lparr>exit_code = 0, failure = None,
                 requests = replicate n (req (Getenv (env w) ''LLM'') (messages kind)),
                 writes = [(file_path kind, markdownTable cs, file_mode)]\<rparr>"
proof -
  let ?r = "req (Getenv (env w) ''LLM'') (messages kind)"
  have ce: "client_error w = None"
  proof (cases "client_error w")
    case (Some e)
    then show ?thesis using assms by (simp add: program_no_client)
  qed simp
  obtain sent res where b: "batch_loop w ?r 0 n [] [] = (sent, res)"
    by (cases "batch_loop w ?r 0 n [] []")
  show ?thesis
  proof (cases res)
    case (Inl e)
    then show ?thesis using assms program_Inl [OF ce, of messages kind n sent e] b by simp
  next
    case (Inr cs)
    have d: "sent = replicate n ?r" "length cs = n"
      using batch_loop_done [of w ?r 0 n "[]" "[]" sent cs] b Inr by simp_all
    have p: "program kind messages n w =
        (case write_error w (file_path kind) (markdownTable cs) file_mode of
           Some e \<Rightarrow> \<lparr>exit_code = 1, failure = Some (WriteError e), requests = sent,
                       writes = [(file_path kind, markdownTable cs, file_mode)]\<rparr>
         | None \<Rightarrow> \<lparr>exit_code = 0, failure = None, requests = sent,
                     writes = [(file_path kind, markdownTable cs, file_mode)]\<rparr>)"
      using program_Inr [OF ce, of messages kind n sent cs] b Inr by simp
    show ?thesis
    proof (cases "write_error w (file_path kind) (markdownTable cs) file_mode")
      case None
      then show ?thesis using p b Inr d by auto
    next
      case (Some e)
      then show ?thesis using p assms by simp
    qed
  qed
qed

lemma program_requests:
  "r \<in> set (requests (program kind messages n w)) \<Longrightarrow> r = req (Getenv (env w) ''LLM'') (messages kind)"
proof -
  assume a: "r \<in> set (requests (program kind messages n w))"
  let ?r = "req (Getenv (env w) ''LLM'') (messages kind)"
  show ?thesis
  proof (cases "client_error w")
    case (Some e)
    then show ?thesis using a by (simp add: program_no_client)
  next
    case None
    obtain sent res where b: "batch_loop w ?r 0 n [] [] = (sent, res)"
      by (cases "batch_loop w ?r 0 n [] []")
    have s: "set sent \<subseteq> {?r}" using batch_loop_sent [OF b] by simp
    have "requests (program kind messages n w) = sent"
    proof (cases res)
      case (Inl e)
      then show ?thesis using program_Inl [OF None, of messages kind n sent e] b by simp
    next
      case (Inr cs)
      then show ?thesis using program_Inr [OF None, of messages kind n sent cs] b
        by (simp split: option.splits)
    qed
    then show ?thesis using a s by auto
  qed
qed

lemma generate_one_stub:
  "generate_one (stub_world e answers) r i =
     (case answers i of
        Inl m \<Rightarrow> Inl (ChatError m)
      | Inr jsonStr \<Rightarrow>
          (case Unmarshal jsonStr zero_Character of
             Inl pe \<Rightarrow> Inl (ParseError pe)
           | Inr c \<Rightarrow> Inr c))"
  by (simp add: generate_one_def stub_world_def)

lemma program_stub_ok:
  assumes "\<forall>j<n. \<exists>c. generate_one (stub_world e answers) (req (Getenv e ''LLM'') (messages kind)) j = Inr c"
  shows "exit_code (program kind messages n (stub_world e answers)) = 0
         \<and> requests (program kind messages n (stub_world e answers))
             = replicate n (req (Getenv e ''LLM'') (messages kind))"
proof -
  let ?w = "stub_world e answers"
  let ?r = "req (Getenv e ''LLM'') (messages kind)"
  have env: "env ?w = e" and ce: "client_error ?w = None" by (simp_all add: stub_world_def)
  from assms have "\<forall>j<n. \<exists>c. generate_one ?w ?r (0 + j) = Inr c" by simp
  from batch_loop_all_ok [OF this, of "[]" "[]"]
  obtain cs where b: "batch_loop ?w ?r 0 n [] [] = (replicate n ?r, Inr cs)" by auto
  have "write_error ?w (file_path kind) (markdownTable cs) file_mode = None"
    by (simp add: stub_world_def)
  then show ?thesis
    using program_Inr [OF ce, of messages kind n "replicate n ?r" cs] b env by simp
qed

section \<open>The request, the abort on failure, the prompt and the file\<close>

lemma schema_round_trip: "parse_json (Marshal schema) = Some (canonical schema)"
  by code_simp

lemma canonical_schema_idem: "canonical (canonical schema) = canonical schema"
  by code_simp

lemma Unmarshal_thorin:
  "Unmarshal thorin_content zero_Character = Inr \<lparr>Name = ''Thorin'', Kind = ''Dwarf''\<rparr>"
  by code_simp

lemma Unmarshal_not_json: "Unmarshal ''not-json'' zero_Character = Inl SyntaxError"
  by code_simp

lemma Getenv_full_env: "Getenv full_env ''LLM'' = ''qwen2.5:0.5b''"
  by (simp add: Getenv_def full_env_def)

lemma batch_loop_count:
  "batch_loop w r i n sent cs = (sent', res) \<Longrightarrow>
     \<exists>k. sent' = sent @ replicate k r \<and> k \<le> n \<and> (0 < n \<longrightarrow> 0 < k)"
proof (induction n arbitrary: i sent cs)
  case 0
  then show ?case by auto
next
  case (Suc n)
  show ?case
  proof (cases "generate_one w r i")
    case (Inl e)
    then have "sent' = sent @ replicate 1 r"
      using Suc.prems by (auto simp: batch_loop_step simp del: batch_loop.simps)
    then show ?thesis by (intro exI [of _ 1]) simp
  next
    case (Inr c)
    then have "batch_loop w r (Suc i) n (sent @ [r]) (cs @ [c]) = (sent', res)"
      using Suc.prems by (simp add: batch_loop_step del: batch_loop.simps)
    from Suc.IH [OF this] obtain k where "sent' = (sent @ [r]) @ replicate k r" "k \<le> n" by blast
    then have "sent' = sent @ replicate (Suc k) r \<and> Suc k \<le> Suc n \<and> 0 < Suc k"
      by (simp add: replicate_app_Cons_same)
    then show ?thesis by blast
  qed
qed

lemma program_exit_failure:
  "(exit_code (program kind messages n w) = 0 \<longleftrightarrow> failure (program kind messages n w) = None)
   \<and> (exit_code (program kind messages n w) = 0 \<or> exit_code (program kind messages n w) = 1)"
  by (simp add: program_def Let_def split: option.splits prod.splits sum.splits)

text \<open>
  Claim C4. Every chat request a run hands to the client has the streaming flag set to
  false, carries as format the encoded schema, whose parsed form is the declared schema
  up to the order of object members, and carries exactly the five decoding options of
  the program with their values: temperature 1.7, repeat_last_n 2, repeat_penalty 2.2,
  top_k 10, top_p 0.9.
\<close>

theorem request_carries_schema_and_options:
  assumes "r \<in> set (requests (program kind messages n w))"
  shows "Stream r = Some False
       \<and> Format r = Marshal schema
       \<and> map_option canonical (parse_json (Format r)) = Some (canonical schema)
       \<and> dom (Options r) = {''temperature'', ''repeat_last_n'', ''repeat_penalty'', ''top_k'', ''top_p''}
       \<and> Options r ''temperature'' = Some (FloatValue 1.7)
       \<and> Options r ''repeat_last_n'' = Some (IntValue 2)
       \<and> Options r ''repeat_penalty'' = Some (FloatValue 2.2)
       \<and> Options r ''top_k'' = Some (IntValue 10)
       \<and> Options r ''top_p'' = Some (FloatValue 0.9)"
proof -
  have r: "r = req (Getenv (env w) ''LLM'') (messages kind)"
    using assms by (rule program_requests)
  have s: "Stream r = Some False" by (simp add: r req_def noStream_def)
  have f: "Format r = Marshal schema" by (simp add: r req_def jsonModel_def)
  have p: "map_option canonical (parse_json (Format r)) = Some (canonical schema)"
    by (simp add: f schema_round_trip canonical_schema_idem)
  have d: "dom (Options r) = {''temperature'', ''repeat_last_n'', ''repeat_penalty'', ''top_k'', ''top_p''}"
    by (auto simp: r req_def)
  have o: "Options r ''temperature'' = Some (FloatValue 1.7)"
      "Options r ''repeat_last_n'' = Some (IntValue 2)"
      "Options r ''repeat_penalty'' = Some (FloatValue 2.2)"
      "Options r ''top_k'' = Some (IntValue 10)"
      "Options r ''top_p'' = Some (FloatValue 0.9)"
    by (simp_all add: r req_def)
  from s f p d o show ?thesis by blast
qed

lemma thorin_run:
  "exit_code (program kind messages 15 thorin_world) = 0
   \<and> requests (program kind messages 15 thorin_world) = replicate 15 (req ''qwen2.5:0.5b'' (messages kind))"
proof -
  have "\<forall>j<15. \<exists>c. generate_one (stub_world full_env (constant_answer (Inr thorin_content)))
            (req (Getenv full_env ''LLM'') (messages kind)) j = Inr c"
    by (simp add: generate_one_stub constant_answer_def Unmarshal_thorin)
  then show ?thesis
    using program_stub_ok [where n = 15 and e = full_env and messages = messages
        and kind = kind and answers = "constant_answer (Inr thorin_content)"]
    by (simp add: thorin_world_def Getenv_full_env)
qed

theorem request_carries_schema_and_options_witness:
  "req ''qwen2.5:0.5b'' (messages_minimal ''Dwarf'') \<in> set (requests (main_02 thorin_world))
   \<and> Stream (req ''qwen2.5:0.5b'' (messages_minimal ''Dwarf'')) = Some False
   \<and> Options (req ''qwen2.5:0.5b'' (messages_minimal ''Dwarf'')) ''temperature'' = Some (FloatValue 1.7)
   \<and> map_option canonical (parse_json (Format (req ''qwen2.5:0.5b'' (messages_minimal ''Dwarf''))))
       = Some (canonical schema)"
proof -
  have m: "req ''qwen2.5:0.5b'' (messages_minimal ''Dwarf'')
     \<in> set (requests (program ''Dwarf'' messages_minimal 15 thorin_world))"
    using thorin_run [of "''Dwarf''" messages_minimal] by simp
  note t = request_carries_schema_and_options [OF m]
  show ?thesis unfolding main_02_def using m t by blast
qed

text \<open>
  Claim C6. When some iteration of the batch fails, by a chat error or a parse error,
  the run ends at the first such iteration with exit status 1: the requests handed to
  the client are those up to and including that iteration, and \<^verbatim>\<open>os.WriteFile\<close> is
  never called, so the records of the earlier iterations are not written.
\<close>

theorem failed_iteration_aborts:
  assumes "client_error w = None"
    and "r = req (Getenv (env w) ''LLM'') (messages kind)"
    and "\<exists>j<n. \<exists>e. generate_one w r j = Inl e"
  shows "exit_code (program kind messages n w) = 1
       \<and> writes (program kind messages n w) = []
       \<and> (\<exists>j<n. \<exists>e. (\<forall>k<j. \<exists>c. generate_one w r k = Inr c)
                    \<and> generate_one w r j = Inl e
                    \<and> ((\<exists>m. e = ChatError m) \<or> (\<exists>pe. e = ParseError pe))
                    \<and> failure (program kind messages n w) = Some e
                    \<and> requests (program kind messages n w) = replicate (Suc j) r)"
proof -
  let ?P = "\<lambda>j. \<exists>e. generate_one w r j = Inl e"
  from assms(3) obtain j where j: "j < n" "?P j" by blast
  define j0 where "j0 = (LEAST j. ?P j)"
  have P0: "?P j0" unfolding j0_def using j(2) by (rule LeastI)
  have le: "j0 \<le> j" unfolding j0_def using j(2) by (rule Least_le)
  have j0n: "j0 < n" using le j(1) by simp
  have before: "\<forall>k<j0. \<exists>c. generate_one w r k = Inr c"
  proof (intro allI impI)
    fix k assume "k < j0"
    then have "\<not> ?P k" unfolding j0_def by (rule not_less_Least)
    then show "\<exists>c. generate_one w r k = Inr c" by (cases "generate_one w r k") auto
  qed
  from P0 obtain e where e: "generate_one w r j0 = Inl e" by blast
  have kind_e: "(\<exists>m. e = ChatError m) \<or> (\<exists>pe. e = ParseError pe)"
    using e by (auto simp: generate_one_def split: sum.splits)
  have "batch_loop w r 0 n [] [] = ([] @ replicate (Suc j0) r, Inl e)"
    using j0n before e by (intro batch_loop_fail) simp_all
  then have b: "batch_loop w (req (Getenv (env w) ''LLM'') (messages kind)) 0 n [] [] = (replicate (Suc j0) r, Inl e)"
    using assms(2) by simp
  have p: "program kind messages n w =
      \<lparr>exit_code = 1, failure = Some e, requests = replicate (Suc j0) r, writes = []\<rparr>"
    using program_Inl [where w = w and messages = messages and kind = kind and n = n
        and sent = "replicate (Suc j0) r" and e = e] assms(1) b by simp
  show ?thesis using p j0n before e kind_e by auto
qed

theorem failed_iteration_aborts_witness:
  "client_error malformed_world = None
   \<and> generate_one malformed_world (req ''qwen2.5:0.5b'' (messages_minimal ''Dwarf'')) 2
       = Inl (ParseError SyntaxError)
   \<and> exit_code (main_02 malformed_world) = 1
   \<and> writes (main_02 malformed_world) = []
   \<and> length (requests (main_02 malformed_world)) = 3"
proof -
  let ?w = "malformed_world"
  let ?r = "req ''qwen2.5:0.5b'' (messages_minimal ''Dwarf'')"
  have ce: "client_error ?w = None" by (simp add: malformed_world_def stub_world_def)
  have r: "?r = req (Getenv (env ?w) ''LLM'') (messages_minimal ''Dwarf'')"
    by (simp add: malformed_world_def stub_world_def Getenv_full_env)
  have g0: "generate_one ?w ?r 0 = Inr \<lparr>Name = ''Thorin'', Kind = ''Dwarf''\<rparr>"
    by (simp add: malformed_world_def generate_one_stub answers_list_def Unmarshal_thorin)
  have g1: "generate_one ?w ?r 1 = Inr \<lparr>Name = ''Thorin'', Kind = ''Dwarf''\<rparr>"
    by (simp add: malformed_world_def generate_one_stub answers_list_def Unmarshal_thorin)
  have g2: "generate_one ?w ?r 2 = Inl (ParseError SyntaxError)"
    by (simp add: malformed_world_def generate_one_stub answers_list_def Unmarshal_not_json)
  have ex: "\<exists>j<15. \<exists>e. generate_one ?w ?r j = Inl e"
    using g2 by (intro exI [of _ 2]) simp
  note t = failed_iteration_aborts [where w = ?w and r = ?r and kind = "''Dwarf''"
      and messages = messages_minimal and n = 15, OF ce r ex]
  from t obtain j e where j: "\<forall>k<j. \<exists>c. generate_one ?w ?r k = Inr c"
    and e: "generate_one ?w ?r j = Inl e"
    and q: "requests (program ''Dwarf'' messages_minimal 15 ?w) = replicate (Suc j) ?r"
    by blast
  have "j \<noteq> 0"
  proof
    assume "j = 0"
    with e g0 show False by simp
  qed
  moreover have "j \<noteq> 1"
  proof
    assume "j = 1"
    with e g1 show False by simp
  qed
  moreover have "\<not> 2 < j"
  proof
    assume "2 < j"
    with j have "\<exists>c. generate_one ?w ?r 2 = Inr c" by blast
    with g2 show False by simp
  qed
  ultimately have "j = 2" by arith
  with q have "length (requests (program ''Dwarf'' messages_minimal 15 ?w)) = 3" by simp
  with t ce g2 show ?thesis unfolding main_02_def by blast
qed

text \<open>
  Claim C8. In the guided program the message list is, in this order, the system
  message with the persona, the system message with the generation rules and the user
  message, whose content is the template
  \<^verbatim>\<open>Generate a random name for an <kind> (kind always equals <kind>).\<close> with the
  selected kind in both places; every request of the guided program carries this list
  for the kind Dwarf.
\<close>

theorem guided_message_list:
  "messages_guided kind =
     [\<lparr>Role = ''system'', Content = systemInstructions\<rparr>,
      \<lparr>Role = ''system'', Content = generationInstructions\<rparr>,
      \<lparr>Role = ''user'',
       Content = ''Generate a random name for an '' @ kind @ '' (kind always equals '' @ kind @ '').''\<rparr>]
   \<and> (\<forall>r\<in>set (requests (main_03 w)).
         Messages r =
           [\<lparr>Role = ''system'', Content = systemInstructions\<rparr>,
            \<lparr>Role = ''system'', Content = generationInstructions\<rparr>,
            \<lparr>Role = ''user'',
             Content = ''Generate a random name for an Dwarf (kind always equals Dwarf).''\<rparr>])"
proof
  show "messages_guided kind =
     [\<lparr>Role = ''system'', Content = systemInstructions\<rparr>,
      \<lparr>Role = ''system'', Content = generationInstructions\<rparr>,
      \<lparr>Role = ''user'',
       Content = ''Generate a random name for an '' @ kind @ '' (kind always equals '' @ kind @ '').''\<rparr>]"
    by (simp add: messages_guided_def userContent_def)
next
  show "\<forall>r\<in>set (requests (main_03 w)).
         Messages r =
           [\<lparr>Role = ''system'', Content = systemInstructions\<rparr>,
            \<lparr>Role = ''system'', Content = generationInstructions\<rparr>,
            \<lparr>Role = ''user'',
             Content = ''Generate a random name for an Dwarf (kind always equals Dwarf).''\<rparr>]"
  proof
    fix r assume "r \<in> set (requests (main_03 w))"
    then have "r = req (Getenv (env w) ''LLM'') (messages_guided ''Dwarf'')"
      unfolding main_03_def by (rule program_requests)
    then show "Messages r =
           [\<lparr>Role = ''system'', Content = systemInstructions\<rparr>,
            \<lparr>Role = ''system'', Content = generationInstructions\<rparr>,
            \<lparr>Role = ''user'',
             Content = ''Generate a random name for an Dwarf (kind always equals Dwarf).''\<rparr>]"
      by (simp add: req_def messages_guided_def userContent_def)
  qed
qed

theorem guided_message_list_witness:
  "req ''qwen2.5:0.5b'' (messages_guided ''Dwarf'') \<in> set (requests (main_03 thorin_world))
   \<and> Messages (req ''qwen2.5:0.5b'' (messages_guided ''Dwarf'')) =
           [\<lparr>Role = ''system'', Content = systemInstructions\<rparr>,
            \<lparr>Role = ''system'', Content = generationInstructions\<rparr>,
            \<lparr>Role = ''user'',
             Content = ''Generate a random name for an Dwarf (kind always equals Dwarf).''\<rparr>]"
proof -
  have m: "req ''qwen2.5:0.5b'' (messages_guided ''Dwarf'') \<in> set (requests (main_03 thorin_world))"
    using thorin_run [of "''Dwarf''" messages_guided] by (simp add: main_03_def)
  with guided_message_list [of "''Dwarf''" thorin_world] show ?thesis by blast
qed

text \<open>
  Claim C9. A run that completes calls \<^verbatim>\<open>os.WriteFile\<close> exactly once: on the path
  \<^verbatim>\<open>./characters.<kind>.md\<close>, with the whole table of the batch as content, and with
  the permission bits 0644, which give the owner read and write and give the group and
  the others read.
\<close>

theorem completed_run_writes_one_file:
  assumes "exit_code (program kind messages n w) = 0"
  shows "(\<exists>cs. length cs = n
            \<and> snd (batch_loop w (req (Getenv (env w) ''LLM'') (messages kind)) 0 n [] []) = Inr cs
            \<and> writes (program kind messages n w)
                = [(''./characters.'' @ kind @ ''.md'', markdownTable cs, 420)])
       \<and> (420 div 64) mod 8 = (6::nat) \<and> (420 div 8) mod 8 = (4::nat) \<and> 420 mod 8 = (4::nat)"
proof -
  from program_completed [OF assms] obtain cs where
    b: "batch_loop w (req (Getenv (env w) ''LLM'') (messages kind)) 0 n [] []
          = (replicate n (req (Getenv (env w) ''LLM'') (messages kind)), Inr cs)"
    and l: "length cs = n"
    and p: "program kind messages n w =
                \<lparr>exit_code = 0, failure = None,
                 requests = replicate n (req (Getenv (env w) ''LLM'') (messages kind)),
                 writes = [(file_path kind, markdownTable cs, file_mode)]\<rparr>"
    by blast
  have "writes (program kind messages n w) = [(''./characters.'' @ kind @ ''.md'', markdownTable cs, 420)]"
    by (simp add: p file_path_def file_mode_def)
  with b l have "\<exists>cs. length cs = n
            \<and> snd (batch_loop w (req (Getenv (env w) ''LLM'') (messages kind)) 0 n [] []) = Inr cs
            \<and> writes (program kind messages n w)
                = [(''./characters.'' @ kind @ ''.md'', markdownTable cs, 420)]"
    by auto
  then show ?thesis by simp
qed

theorem completed_run_writes_one_file_witness:
  "exit_code (main_02 thorin_world) = 0
   \<and> map fst (writes (main_02 thorin_world)) = [''./characters.Dwarf.md'']
   \<and> map (snd \<circ> snd) (writes (main_02 thorin_world)) = [420]"
proof -
  have e: "exit_code (program ''Dwarf'' messages_minimal 15 thorin_world) = 0"
    using thorin_run [of "''Dwarf''" messages_minimal] by simp
  from completed_run_writes_one_file [OF e] obtain cs where
    "writes (program ''Dwarf'' messages_minimal 15 thorin_world)
       = [(''./characters.'' @ ''Dwarf'' @ ''.md'', markdownTable cs, 420)]"
    by blast
  with e show ?thesis by (simp add: main_02_def)
qed

end
